theory Spec2Isabelle
  imports Complex_Main "HOL-Library.Word" "HOL-Library.Signed_Division"
begin

section \<open>runUp: the Pomodoro timer sketch, data model\<close>

text \<open>
  The sketch \<^verbatim>\<open>runup-arduino-pomodoro-mfs.ino\<close> keeps one byte per day of the year in
  the EEPROM (cells 1..366, the end-of-data byte one cell after the latest saved day),
  a bit-packed configuration block at address 1015, and its run-time state in global
  variables. The model below passes these globals around as one record.

  Number types. A byte (\<^verbatim>\<open>byte\<close>, \<^verbatim>\<open>uint8_t\<close>) that is stored, compared or
  incremented is an \<open>8 word\<close>; a year (\<^verbatim>\<open>uint16_t\<close>) is a \<open>16 word\<close>; the countdown
  (\<^verbatim>\<open>char\<close>, signed on AVR) is an \<open>8 word\<close> read with \<open>sint\<close>. Day-of-year values and
  EEPROM addresses, which the sketch mixes freely between \<^verbatim>\<open>uint16_t\<close> and the 16-bit
  \<^verbatim>\<open>int\<close>, are \<open>int\<close>: the sanity check of the clock keeps a day of the year within
  1..366, so no operation on them leaves the 16-bit range. The C remainder \<^verbatim>\<open>%\<close> on
  \<^verbatim>\<open>int\<close> truncates towards zero and is written \<open>smod\<close>. Where a 16-bit
  \<^verbatim>\<open>int\<close> is added to without a bound, in the statistics, the two's complement
  wrap-around of the AVR is written out as \<open>wrap16\<close>.
\<close>

type_synonym byte = "8 word"

definition EMPTY_VALUE :: byte where
  "EMPTY_VALUE = 0xFF"

definition SPRINTS_END_BYTE :: byte where
  "SPRINTS_END_BYTE = 0xED"

definition CONFIG_SIGNATURE :: byte where
  "CONFIG_SIGNATURE = 0x42"

definition VERSION :: byte where
  "VERSION = 120"

datatype OperatingStates =
  STANDBY | COUNTING | PAUSED | SLEEPING | DATETIMESETUP | CLEARING | ERROR

text \<open>The enum \<^verbatim>\<open>CountedDoW\<close>; the configuration stores it in a 4-bit field.\<close>

definition FIVE_DAYS :: nat where
  "FIVE_DAYS = 0"

definition SIX_DAYS :: nat where
  "SIX_DAYS = 1"

definition SEVEN_DAYS :: nat where
  "SEVEN_DAYS = 2"

definition NOT_0_DAYS :: nat where
  "NOT_0_DAYS = 3"





record Config =
  signature :: byte
  version :: byte
  displayBrightness :: nat
  buzzEnabled :: bool
  tune :: nat
  cueEnabled :: bool
  ledsEnabled :: bool
  countingDoWs :: nat
  countingUnits :: nat
  heroModeEnabled :: bool
  muteModeEnabled :: bool

text \<open>
  What \<^verbatim>\<open>Rtc.GetDateTime()\<close> returns. The clock library is not part of the sketch, so
  a reading is an input of every operation that asks for one.
\<close>

record RtcDateTime =
  Year :: "16 word"
  Month :: nat
  Day :: nat
  Hour :: nat
  Minute :: nat
  Second :: nat
  DayOfWeek :: nat

text \<open>
  The globals. \<open>eeprom\<close> is the byte store, addressed as the sketch addresses it;
  \<open>writes\<close> records the calls of \<^verbatim>\<open>EEPROM.update\<close> in the order they are made
  (address and value), so that the order of the writes can be stated. \<open>storedConfig\<close> is
  the configuration block at \<^verbatim>\<open>CONFIG_ADDRESS\<close>, read and written as a whole by
  \<^verbatim>\<open>EEPROM.get\<close> and \<^verbatim>\<open>EEPROM.put\<close>; its bit layout is the compiler's and is kept
  apart from the byte store. \<open>statisticsArray\<close> is indexed by (row, period).
\<close>

record state =
  eeprom :: "int \<Rightarrow> byte"
  writes :: "(int \<times> byte) list"
  storedConfig :: Config
  config :: Config
  operatingState :: OperatingStates
  errorCode :: nat
  sprintCounter :: byte
  currentDayOfWeek :: nat
  currentDayOfYear :: int
  currentMonth :: nat
  currentYear :: "16 word"
  currentInterval :: byte
  tenths :: byte
  seconds :: byte
  minutes :: byte
  showStaticInfo :: bool
  statisticsArray :: "nat \<times> nat \<Rightarrow> int"

definition EEPROM_update :: "int \<Rightarrow> byte \<Rightarrow> state \<Rightarrow> state" where
  "EEPROM_update address v s =
     s\<lparr>eeprom := (eeprom s)(address := v), writes := writes s @ [(address, v)]\<rparr>"

section \<open>Date and time operations\<close>

definition isLeapYear :: "16 word \<Rightarrow> bool" where
  "isLeapYear year =
     (unat year mod 4 = 0 \<and> (unat year mod 100 \<noteq> 0 \<or> unat year mod 400 = 0))"

definition dim :: "nat list" where
  "dim = [31, 28, 31, 30, 31, 30, 31, 31, 30, 31, 30, 31]"

text \<open>
  \<^verbatim>\<open>getDaysInMonth\<close> indexes the table with \<^verbatim>\<open>month - 1\<close> unchecked; a month
  outside 1..12 reads outside the table, which is \<open>None\<close> here.
\<close>

definition getDaysInMonth :: "16 word \<Rightarrow> nat \<Rightarrow> nat option" where
  "getDaysInMonth year month =
     (if month = 2 \<and> isLeapYear year then Some 29
      else if 1 \<le> month \<and> month \<le> 12 then Some (dim ! (month - 1))
      else None)"

definition isRtcDateTimeSane :: "RtcDateTime \<Rightarrow> bool" where
  "isRtcDateTimeSane now =
     (if Year now < 2025 \<or> Year now > 2050 then False
      else if Month now < 1 \<or> Month now > 12 then False
      else if Day now < 1 \<or> (case getDaysInMonth (Year now) (Month now) of
                                 Some n \<Rightarrow> Day now > n | None \<Rightarrow> True) then False
      else if Hour now > 23 \<or> Minute now > 59 \<or> Second now > 59 then False
      else True)"

text \<open>
  The day of the year as \<^verbatim>\<open>getCurrentDate\<close> computes it: the day of the month, plus
  the table entries of the months before, plus one after February of a leap year.
\<close>

definition dayOfYearOf :: "16 word \<Rightarrow> nat \<Rightarrow> nat \<Rightarrow> int" where
  "dayOfYearOf year month day =
     (let dayOfYear = foldl (\<lambda>acc i. acc + int (dim ! i)) (int day) [0..<month - 1]
      in if month > 2 \<and> isLeapYear year then dayOfYear + 1 else dayOfYear)"

definition getCurrentDate :: "RtcDateTime \<Rightarrow> state \<Rightarrow> state" where
  "getCurrentDate now s =
     (if isRtcDateTimeSane now then
        s\<lparr>currentDayOfYear := dayOfYearOf (Year now) (Month now) (Day now),
          currentDayOfWeek := (if DayOfWeek now = 0 then 7 else DayOfWeek now),
          currentMonth := Month now,
          currentYear := Year now\<rparr>
      else s\<lparr>errorCode := 2, operatingState := ERROR\<rparr>)"

section \<open>The sprint log\<close>

definition validateNextDayCell :: "state \<Rightarrow> state" where
  "validateNextDayCell s =
     (let nextValue = eeprom s (currentDayOfYear s + 2)
      in if errorCode s = 0 \<and> nextValue \<noteq> EMPTY_VALUE then
           (if nextValue \<ge> 0 \<and> nextValue < 58 then s
            else s\<lparr>operatingState := ERROR, errorCode := 3\<rparr>)
         else s)"

text \<open>The loop of \<^verbatim>\<open>saveSprint\<close> that clears end bytes left at other addresses.\<close>

definition clearEndByteAt :: "state \<Rightarrow> int \<Rightarrow> state" where
  "clearEndByteAt s address =
     (if eeprom s address = SPRINTS_END_BYTE \<and> address \<noteq> currentDayOfYear s + 1
      then EEPROM_update address EMPTY_VALUE s else s)"

definition clearStrayEndBytes :: "state \<Rightarrow> state" where
  "clearStrayEndBytes s = foldl clearEndByteAt s [2..367]"

definition saveSprint :: "RtcDateTime \<Rightarrow> state \<Rightarrow> state" where
  "saveSprint now s =
     (let initialDayOfYear = currentDayOfYear s;
          s1 = validateNextDayCell (getCurrentDate now s)
      in if errorCode s1 = 0 then
           (let s2 = (if currentDayOfYear s1 = initialDayOfYear then s1
                      else s1\<lparr>sprintCounter := 1\<rparr>);
                s3 = EEPROM_update (currentDayOfYear s2) (sprintCounter s2) s2;
                s4 = clearStrayEndBytes s3
            in EEPROM_update (currentDayOfYear s4 + 1) SPRINTS_END_BYTE s4)
         else s1)"

text \<open>
  The year \<^verbatim>\<open>getDateFromDayOfYear\<close> resolves a day of the year to, and its loop over
  the months. The loop has no bound of its own: once \<open>month\<close> passes 12 it reads
  outside the table of \<^verbatim>\<open>getDaysInMonth\<close>, where the model stops with \<open>None\<close>. The
  result is the pair (day, month) handed to \<^verbatim>\<open>sprintf\<close>.
\<close>

definition resolveYear :: "int \<Rightarrow> state \<Rightarrow> 16 word" where
  "resolveYear inputDayOfYear s =
     (if inputDayOfYear \<le> currentDayOfYear s then currentYear s else currentYear s - 1)"

function monthDayLoop :: "16 word \<Rightarrow> int \<Rightarrow> nat \<Rightarrow> (int \<times> nat) option" where
  "monthDayLoop year day month =
     (case getDaysInMonth year month of
        None \<Rightarrow> None
      | Some n \<Rightarrow>
          if day > int n then monthDayLoop year (day - int n) (month + 1)
          else Some (day, month))"
  by pat_completeness auto
termination
  by (relation "measure (\<lambda>(year, day, month). 13 - month)")
     (auto simp: getDaysInMonth_def split: if_splits)

declare monthDayLoop.simps [simp del]

definition getDateFromDayOfYear :: "int \<Rightarrow> state \<Rightarrow> (int \<times> nat) option" where
  "getDateFromDayOfYear inputDayOfYear s =
     monthDayLoop (resolveYear inputDayOfYear s) inputDayOfYear 1"

section \<open>Start-up\<close>

text \<open>The initial values of the globals, over a given EEPROM content.\<close>

definition zeroConfig :: Config where
  "zeroConfig =
     \<lparr>signature = 0, version = 0, displayBrightness = 0, buzzEnabled = False, tune = 0,
      cueEnabled = False, ledsEnabled = False, countingDoWs = 0, countingUnits = 0,
      heroModeEnabled = False, muteModeEnabled = False\<rparr>"

definition powerOn :: "(int \<Rightarrow> byte) \<Rightarrow> Config \<Rightarrow> state" where
  "powerOn e stored =
     \<lparr>eeprom = e, writes = [], storedConfig = stored, config = zeroConfig,
      operatingState = STANDBY, errorCode = 0, sprintCounter = 0, currentDayOfWeek = 1,
      currentDayOfYear = 1, currentMonth = 1, currentYear = 2025, currentInterval = 0,
      tenths = 0, seconds = 0, minutes = 0, showStaticInfo = False,
      statisticsArray = (\<lambda>_. 0)\<rparr>"

definition initConfig :: "state \<Rightarrow> state" where
  "initConfig s =
     s\<lparr>config :=
         \<lparr>signature = CONFIG_SIGNATURE, version = VERSION, displayBrightness = 3,
          buzzEnabled = True, tune = 1, cueEnabled = False, ledsEnabled = True,
          countingDoWs = 0, countingUnits = 1, heroModeEnabled = False,
          muteModeEnabled = False\<rparr>\<rparr>"

definition saveConfig :: "state \<Rightarrow> state" where
  "saveConfig s = s\<lparr>storedConfig := config s\<rparr>"

definition loadConfig :: "state \<Rightarrow> state" where
  "loadConfig s =
     (let s1 = s\<lparr>config := storedConfig s\<rparr>
      in if signature (config s1) \<noteq> CONFIG_SIGNATURE then
           (saveConfig (initConfig s1))\<lparr>operatingState := DATETIMESETUP\<rparr>
         else if version (config s1) \<noteq> VERSION then
           (let oldConfig = storedConfig s1;
                s2 = initConfig s1;
                s3 = s2\<lparr>config := (config s2)
                       \<lparr>displayBrightness := displayBrightness oldConfig,
                        buzzEnabled := buzzEnabled oldConfig,
                        tune := tune oldConfig,
                        cueEnabled := cueEnabled oldConfig,
                        ledsEnabled := ledsEnabled oldConfig,
                        countingDoWs := countingDoWs oldConfig,
                        countingUnits := countingUnits oldConfig,
                        heroModeEnabled := heroModeEnabled oldConfig,
                        muteModeEnabled := muteModeEnabled oldConfig,
                        signature := CONFIG_SIGNATURE,
                        version := VERSION\<rparr>\<rparr>
            in saveConfig s3)
         else s1)"

text \<open>The scan for the latest end byte (cells 2..367; the last one found wins).\<close>

definition latestSavedDayOfYear :: "(int \<Rightarrow> byte) \<Rightarrow> int" where
  "latestSavedDayOfYear e =
     foldl (\<lambda>latest address. if e address = SPRINTS_END_BYTE then address - 1 else latest)
       0 [2..367]"

definition fillZero :: "int list \<Rightarrow> state \<Rightarrow> state" where
  "fillZero cells s = foldl (\<lambda>t i. EEPROM_update i 0 t) s cells"

text \<open>
  The second half of the start-up routine: restore today's counter, or fill the skipped
  days with zeroes. \<open>now\<close> is the clock reading taken in the new-year branch, of which
  only the year is used.
\<close>

definition reconcileOnBoot :: "RtcDateTime \<Rightarrow> state \<Rightarrow> state" where
  "reconcileOnBoot now s =
     (if errorCode s = 0 \<and> operatingState s = STANDBY then
        (let savedSprintCounter = eeprom s (currentDayOfYear s)
         in if savedSprintCounter \<noteq> EMPTY_VALUE
               \<and> savedSprintCounter \<noteq> SPRINTS_END_BYTE
               \<and> eeprom s (currentDayOfYear s + 1) = SPRINTS_END_BYTE
            then s\<lparr>sprintCounter := savedSprintCounter\<rparr>
            else
              (let latest = latestSavedDayOfYear (eeprom s);
                   skippedDays = currentDayOfYear s - latest;
                   s1 = (if skippedDays < 0 \<and> latest > 0 then
                           (let previousYear = Year now - 1;
                                daysInPreviousYear =
                                  (if isLeapYear previousYear then 366 else 365)
                            in fillZero [1..currentDayOfYear s]
                                 (fillZero [latest + 1..daysInPreviousYear] s))
                         else if skippedDays > 0 \<and> latest > 0 then
                           fillZero (map (\<lambda>i. latest + i) [1..skippedDays]) s
                         else s)
               in if skippedDays \<noteq> 0 \<and> latest > 0
                  then EEPROM_update (currentDayOfYear s1 + 1) SPRINTS_END_BYTE s1
                  else s1))
      else s)"

text \<open>
  The start-up routine of the sketch (\<^verbatim>\<open>setup()\<close>): \<open>rtcValid\<close> is the answer of
  \<^verbatim>\<open>Rtc.IsDateTimeValid()\<close>, \<open>now\<close> the reading taken by \<^verbatim>\<open>getCurrentDate\<close> and
  \<open>nowNewYear\<close> the one taken in the new-year branch. Serial output and the display are
  left out.
\<close>

definition startup :: "bool \<Rightarrow> RtcDateTime \<Rightarrow> RtcDateTime \<Rightarrow> state \<Rightarrow> state" where
  "startup rtcValid now nowNewYear s =
     (let s1 = loadConfig s;
          s2 = s1\<lparr>config := (config s1)\<lparr>muteModeEnabled := False\<rparr>\<rparr>;
          s3 = (if operatingState s2 \<noteq> DATETIMESETUP then
                  (if \<not> rtcValid then s2\<lparr>errorCode := 1, operatingState := ERROR\<rparr>
                   else validateNextDayCell (getCurrentDate now s2))
                else s2)
      in reconcileOnBoot nowNewYear s3)"

section \<open>Statistics\<close>

text \<open>
  The value a 16-bit \<^verbatim>\<open>int\<close> holds after an addition: the sum reduced to the range
  -32768..32767.
\<close>

definition wrap16 :: "int \<Rightarrow> int" where
  "wrap16 x = sint (word_of_int x :: 16 word)"

text \<open>
  The four local accumulators of \<^verbatim>\<open>getStatisticsByPeriod\<close>, each a 16-bit
  \<^verbatim>\<open>int\<close>.
\<close>

record StatAcc =
  totalSprints :: int
  totalDays :: int
  maximum :: int
  minimum :: int

definition initialAcc :: StatAcc where
  "initialAcc = \<lparr>totalSprints = 0, totalDays = 0, maximum = 0, minimum = 100\<rparr>"

text \<open>A weekday remainder of 0 stands for Sunday, day 7.\<close>

definition sundayAs7 :: "int \<Rightarrow> int" where
  "sundayAs7 dow = (if dow = 0 then 7 else dow)"

definition daysInPreviousYearOf :: "16 word \<Rightarrow> int" where
  "daysInPreviousYearOf year = (if isLeapYear (year - 1) then 366 else 365)"

definition prevStartDowOf :: "int \<Rightarrow> int \<Rightarrow> int" where
  "prevStartDowOf startDow daysInPreviousYear =
     sundayAs7 ((startDow - (daysInPreviousYear smod 7) + 7) smod 7)"

text \<open>The first half of the loop body: the cell and the weekday of a day of the window.\<close>

definition resolveDay :: "int \<Rightarrow> int \<Rightarrow> int \<Rightarrow> int \<Rightarrow> int \<times> int" where
  "resolveDay startDow prevStartDow daysInPreviousYear day =
     (if day \<ge> 1 then (day, sundayAs7 ((startDow + (day - 1)) smod 7))
      else (let mappedDay = day + daysInPreviousYear
            in (mappedDay, sundayAs7 ((prevStartDow + (mappedDay - 1)) smod 7))))"

text \<open>The second half: skip the cell or add it to the accumulators.\<close>

definition accumulate :: "Config \<Rightarrow> StatAcc \<Rightarrow> byte \<times> int \<Rightarrow> StatAcc" where
  "accumulate cfg acc cell =
     (let sprintCounter = fst cell; dow = snd cell
      in if sprintCounter = EMPTY_VALUE then acc
         else if sprintCounter = SPRINTS_END_BYTE then acc
         else if countingDoWs cfg = NOT_0_DAYS \<and> sprintCounter = 0 then acc
         else if (countingDoWs cfg = FIVE_DAYS \<and> dow \<ge> 6)
                 \<or> (countingDoWs cfg = SIX_DAYS \<and> dow = 7) then acc
         else acc\<lparr>totalSprints := wrap16 (totalSprints acc + uint sprintCounter),
                  totalDays := wrap16 (totalDays acc + 1),
                  maximum := (if uint sprintCounter > maximum acc
                              then uint sprintCounter else maximum acc),
                  minimum := (if uint sprintCounter < minimum acc
                              then uint sprintCounter else minimum acc)\<rparr>)"

definition scanPeriod :: "Config \<Rightarrow> (int \<Rightarrow> byte) \<Rightarrow> int \<Rightarrow> int \<Rightarrow> int \<Rightarrow> 16 word \<Rightarrow> StatAcc" where
  "scanPeriod cfg e startDay endDay startDow year =
     (let daysInPreviousYear = daysInPreviousYearOf year;
          prevStartDow = prevStartDowOf startDow daysInPreviousYear
      in foldl (\<lambda>acc day.
                  (let (idx, dow) = resolveDay startDow prevStartDow daysInPreviousYear day
                   in accumulate cfg acc (e idx, dow)))
           initialAcc [startDay..endDay])"











text \<open>
  The specification's reading of the aggregation, for comparison: a list of cells, each
  with its weekday, is filtered (empty cells and the end byte never count; Saturday and
  Sunday, or Sunday alone, are left out by the two weekday modes; zero counts are left out
  by the non-zero mode) and the counts that remain are summed, counted and compared.
\<close>

definition countedBySpec :: "nat \<Rightarrow> byte \<times> int \<Rightarrow> bool" where
  "countedBySpec mode cell =
     (fst cell \<noteq> EMPTY_VALUE \<and> fst cell \<noteq> SPRINTS_END_BYTE
      \<and> \<not> (mode = FIVE_DAYS \<and> (snd cell = 6 \<or> snd cell = 7))
      \<and> \<not> (mode = SIX_DAYS \<and> snd cell = 7)
      \<and> \<not> (mode = NOT_0_DAYS \<and> fst cell = 0))"

definition naiveRescan :: "nat \<Rightarrow> (byte \<times> int) list \<Rightarrow> StatAcc" where
  "naiveRescan mode cells =
     (let counts = map (\<lambda>cell. uint (fst cell)) (filter (countedBySpec mode) cells)
      in \<lparr>totalSprints = sum_list counts, totalDays = int (length counts),
          maximum = Max (set (0 # counts)), minimum = Min (set (100 # counts))\<rparr>)"

section \<open>The sprint scheduler\<close>

definition setInterval :: "int \<Rightarrow> state \<Rightarrow> state" where
  "setInterval v s =
     (let s1 = s\<lparr>currentInterval := word_of_int v, minutes := word_of_int v, seconds := 0\<rparr>
      in if heroModeEnabled (config s1) \<and> (v = 5 \<or> v = 15)
         then s1\<lparr>minutes := 0, seconds := 1\<rparr> else s1)"

definition startAnimation :: "state \<Rightarrow> state" where
  "startAnimation s = s\<lparr>showStaticInfo := False\<rparr>"

text \<open>\<open>timeIsUp\<close>: the animation window, measured with \<^verbatim>\<open>millis()\<close>, has passed.\<close>

definition runAnimation :: "bool \<Rightarrow> state \<Rightarrow> state" where
  "runAnimation timeIsUp s = (if timeIsUp then s\<lparr>showStaticInfo := True\<rparr> else s)"

text \<open>
  The branch of the main loop taken when a work interval ends: the counter is
  incremented, saved, and the break is chosen. Sound and display are left out.
\<close>

definition sprintFinished :: "RtcDateTime \<Rightarrow> state \<Rightarrow> state" where
  "sprintFinished now s =
     (let s1 = setInterval 0 s;
          s2 = s1\<lparr>sprintCounter := sprintCounter s1 + 1\<rparr>;
          s3 = saveSprint now s2;
          s4 = startAnimation s3
      in if unat (sprintCounter s4) mod 4 = 0 then setInterval 15 s4 else setInterval 5 s4)"

text \<open>
  One pass of the main loop in the state \<^verbatim>\<open>COUNTING\<close> with no button event: the
  animation at the start of a break, or one tenth of a second of the countdown.
\<close>

definition countingTick :: "bool \<Rightarrow> RtcDateTime \<Rightarrow> state \<Rightarrow> state" where
  "countingTick timeIsUp now s =
     (if (currentInterval s = 5 \<or> currentInterval s = 15) \<and> \<not> showStaticInfo s then
        runAnimation timeIsUp s
      else
        (let s1 = s\<lparr>tenths := tenths s + 1\<rparr>
         in if tenths s1 = 10 then
              (let s2 = s1\<lparr>tenths := 0, seconds := seconds s1 - 1\<rparr>;
                   s3 = (if sint (seconds s2) < 0 \<and> sint (minutes s2) > 0
                         then s2\<lparr>seconds := 59, minutes := minutes s2 - 1\<rparr> else s2)
               in if minutes s3 = 0 \<and> seconds s3 = 0 then
                    (if currentInterval s3 = 25 then sprintFinished now s3
                     else if currentInterval s3 = 15 \<or> currentInterval s3 = 5
                          then setInterval 25 s3
                     else s3)
                  else s3)
            else s1))"

section \<open>Properties of the log operations\<close>

text \<open>The address lists of the loops are kept folded in the proofs below.\<close>

declare upto_rec_numeral [simp del]

lemma EMPTY_not_END: "EMPTY_VALUE \<noteq> SPRINTS_END_BYTE"
  by (simp add: EMPTY_VALUE_def SPRINTS_END_BYTE_def)

lemma clearEndByteAt_frame:
  "clearEndByteAt s a = s\<lparr>eeprom := eeprom (clearEndByteAt s a), writes := writes (clearEndByteAt s a)\<rparr>"
  by (simp add: clearEndByteAt_def EEPROM_update_def)

lemma clearEndByteAt_eeprom:
  "eeprom (clearEndByteAt s a) b =
     (if b = a \<and> eeprom s a = SPRINTS_END_BYTE \<and> a \<noteq> currentDayOfYear s + 1
      then EMPTY_VALUE else eeprom s b)"
  by (simp add: clearEndByteAt_def EEPROM_update_def)

lemma clearEndByteAt_writes:
  "writes (clearEndByteAt s a) =
     writes s @ (if eeprom s a = SPRINTS_END_BYTE \<and> a \<noteq> currentDayOfYear s + 1
                 then [(a, EMPTY_VALUE)] else [])"
  by (simp add: clearEndByteAt_def EEPROM_update_def)

lemma clearEndByteAt_day: "currentDayOfYear (clearEndByteAt s a) = currentDayOfYear s"
  by (simp add: clearEndByteAt_def EEPROM_update_def)

lemma frame_trans:
  "t = s\<lparr>eeprom := eeprom t, writes := writes t\<rparr> \<Longrightarrow>
   u = t\<lparr>eeprom := eeprom u, writes := writes u\<rparr> \<Longrightarrow>
   u = s\<lparr>eeprom := eeprom u, writes := writes u\<rparr>"
  by (cases s, cases t, cases u) simp

lemma clear_fold_frame:
  "foldl clearEndByteAt s xs =
     s\<lparr>eeprom := eeprom (foldl clearEndByteAt s xs), writes := writes (foldl clearEndByteAt s xs)\<rparr>"
proof (induction xs arbitrary: s)
  case Nil
  show ?case by simp
next
  case (Cons x xs)
  show ?case
    unfolding foldl_Cons
    by (rule frame_trans [OF clearEndByteAt_frame Cons.IH])
qed

lemma clear_fold_day: "currentDayOfYear (foldl clearEndByteAt s xs) = currentDayOfYear s"
  by (induction xs arbitrary: s) (simp_all add: clearEndByteAt_day)

lemma clear_fold_eeprom:
  "eeprom (foldl clearEndByteAt s xs) b =
     (if b \<in> set xs \<and> eeprom s b = SPRINTS_END_BYTE \<and> b \<noteq> currentDayOfYear s + 1
      then EMPTY_VALUE else eeprom s b)"
proof (induction xs arbitrary: s)
  case Nil
  show ?case by simp
next
  case (Cons x xs)
  show ?case
    using EMPTY_not_END
    by (auto simp: Cons.IH clearEndByteAt_eeprom clearEndByteAt_day)
qed

lemma clear_fold_writes:
  "distinct xs \<Longrightarrow>
   writes (foldl clearEndByteAt s xs) =
     writes s @ map (\<lambda>a. (a, EMPTY_VALUE))
       (filter (\<lambda>a. eeprom s a = SPRINTS_END_BYTE \<and> a \<noteq> currentDayOfYear s + 1) xs)"
proof (induction xs arbitrary: s)
  case Nil
  show ?case by simp
next
  case (Cons x xs)
  from Cons.prems have d: "distinct xs" and nx: "x \<notin> set xs" by simp_all
  have same: "filter (\<lambda>a. eeprom (clearEndByteAt s x) a = SPRINTS_END_BYTE
                          \<and> a \<noteq> currentDayOfYear (clearEndByteAt s x) + 1) xs
            = filter (\<lambda>a. eeprom s a = SPRINTS_END_BYTE \<and> a \<noteq> currentDayOfYear s + 1) xs"
    using nx by (intro filter_cong) (auto simp: clearEndByteAt_eeprom clearEndByteAt_day)
  show ?case
    by (simp add: Cons.IH [OF d] same clearEndByteAt_writes)
qed


lemma getCurrentDate_keeps:
  "eeprom (getCurrentDate now s) = eeprom s"
  "writes (getCurrentDate now s) = writes s"
  "sprintCounter (getCurrentDate now s) = sprintCounter s"
  by (simp_all add: getCurrentDate_def)

lemma validateNextDayCell_keeps:
  "eeprom (validateNextDayCell s) = eeprom s"
  "writes (validateNextDayCell s) = writes s"
  "sprintCounter (validateNextDayCell s) = sprintCounter s"
  "currentDayOfYear (validateNextDayCell s) = currentDayOfYear s"
  by (simp_all add: validateNextDayCell_def Let_def)

lemma clearStray_eeprom:
  "eeprom (clearStrayEndBytes s) a =
     (if 2 \<le> a \<and> a \<le> 367 \<and> eeprom s a = SPRINTS_END_BYTE \<and> a \<noteq> currentDayOfYear s + 1
      then EMPTY_VALUE else eeprom s a)"
  by (simp add: clearStrayEndBytes_def clear_fold_eeprom)

lemma clearStray_writes:
  "writes (clearStrayEndBytes s) =
     writes s @ map (\<lambda>a. (a, EMPTY_VALUE))
       (filter (\<lambda>a. eeprom s a = SPRINTS_END_BYTE \<and> a \<noteq> currentDayOfYear s + 1) [2..367])"
  by (simp add: clearStrayEndBytes_def clear_fold_writes)

lemma clearStray_frame:
  "clearStrayEndBytes s =
     s\<lparr>eeprom := eeprom (clearStrayEndBytes s), writes := writes (clearStrayEndBytes s)\<rparr>"
  unfolding clearStrayEndBytes_def by (rule clear_fold_frame)

lemma clearStray_keeps:
  "currentDayOfYear (clearStrayEndBytes s) = currentDayOfYear s"
  "sprintCounter (clearStrayEndBytes s) = sprintCounter s"
  "errorCode (clearStrayEndBytes s) = errorCode s"
  "operatingState (clearStrayEndBytes s) = operatingState s"
  "config (clearStrayEndBytes s) = config s"
  by (subst clearStray_frame, simp)+

text \<open>What a save without error leaves behind.\<close>

lemma saveSprint_saved:
  assumes ok: "errorCode (validateNextDayCell (getCurrentDate now s)) = 0"
  defines "d \<equiv> currentDayOfYear (validateNextDayCell (getCurrentDate now s))"
  defines "n \<equiv> (if d = currentDayOfYear s then sprintCounter s else 1)"
  shows "eeprom (saveSprint now s) a =
           (if a = d + 1 then SPRINTS_END_BYTE
            else if 2 \<le> a \<and> a \<le> 367 \<and> ((eeprom s)(d := n)) a = SPRINTS_END_BYTE
            then EMPTY_VALUE else ((eeprom s)(d := n)) a)"
    and "writes (saveSprint now s) =
           writes s @ (d, n) # map (\<lambda>a. (a, EMPTY_VALUE))
             (filter (\<lambda>a. ((eeprom s)(d := n)) a = SPRINTS_END_BYTE \<and> a \<noteq> d + 1) [2..367])
           @ [(d + 1, SPRINTS_END_BYTE)]"
    and "sprintCounter (saveSprint now s) = n"
    and "currentDayOfYear (saveSprint now s) = d"
    and "errorCode (saveSprint now s) = 0"
  using ok unfolding d_def n_def
  by (simp_all add: saveSprint_def Let_def EEPROM_update_def clearStray_eeprom clearStray_writes
        clearStray_keeps getCurrentDate_keeps validateNextDayCell_keeps)

text \<open>
  Claim C1, as amended. After a save that raises no error on day \<open>d\<close> (1..366) with the
  count \<open>n\<close> (0..57; the running counter, or 1 when the day has changed), cell \<open>d\<close>
  holds \<open>n\<close>, and among the cells 2..367 exactly cell \<open>d + 1\<close> holds the end byte. The
  clearing pass runs over the addresses 2..367 only: cell 1 holds the end byte afterwards
  exactly if \<open>d\<close> is not 1 and cell 1 held it before. The calls of
  \<^verbatim>\<open>EEPROM.update\<close> are, in this order: the count at \<open>d\<close>, the clearing of each stray
  end byte in 2..367 in ascending order, the end byte at \<open>d + 1\<close>.
\<close>

theorem saveSprint_log:
  assumes "errorCode (validateNextDayCell (getCurrentDate now s)) = 0"
    and "currentDayOfYear (validateNextDayCell (getCurrentDate now s)) = d"
    and "1 \<le> d" and "d \<le> 366"
    and "(if d = currentDayOfYear s then sprintCounter s else 1) = n"
    and "n < 58"
  shows "eeprom (saveSprint now s) d = n
       \<and> (\<forall>a\<in>{2..367}. (eeprom (saveSprint now s) a = SPRINTS_END_BYTE) = (a = d + 1))
       \<and> (eeprom (saveSprint now s) 1 = SPRINTS_END_BYTE) = (d \<noteq> 1 \<and> eeprom s 1 = SPRINTS_END_BYTE)
       \<and> writes (saveSprint now s) =
           writes s @ (d, n) # map (\<lambda>a. (a, EMPTY_VALUE))
             (filter (\<lambda>a. eeprom s a = SPRINTS_END_BYTE \<and> a \<noteq> d \<and> a \<noteq> d + 1) [2..367])
           @ [(d + 1, SPRINTS_END_BYTE)]"
proof -
  have n: "n \<noteq> SPRINTS_END_BYTE" "n \<noteq> EMPTY_VALUE"
    using \<open>n < 58\<close> by (auto simp: SPRINTS_END_BYTE_def EMPTY_VALUE_def)
  note sv = saveSprint_saved [OF assms(1), unfolded assms(2) assms(5)]
  have f: "filter (\<lambda>a. ((eeprom s)(d := n)) a = SPRINTS_END_BYTE \<and> a \<noteq> d + 1) [2..367]
         = filter (\<lambda>a. eeprom s a = SPRINTS_END_BYTE \<and> a \<noteq> d \<and> a \<noteq> d + 1) [2..367]"
    using n by (intro filter_cong) auto
  have 1: "eeprom (saveSprint now s) d = n"
    using n by (simp add: sv(1))
  have 2: "\<forall>a\<in>{2..367}. (eeprom (saveSprint now s) a = SPRINTS_END_BYTE) = (a = d + 1)"
    using n EMPTY_not_END by (auto simp: sv(1))
  have 3: "(eeprom (saveSprint now s) 1 = SPRINTS_END_BYTE) = (d \<noteq> 1 \<and> eeprom s 1 = SPRINTS_END_BYTE)"
    using n \<open>1 \<le> d\<close> by (auto simp: sv(1))
  have 4: "writes (saveSprint now s) =
           writes s @ (d, n) # map (\<lambda>a. (a, EMPTY_VALUE))
             (filter (\<lambda>a. eeprom s a = SPRINTS_END_BYTE \<and> a \<noteq> d \<and> a \<noteq> d + 1) [2..367])
           @ [(d + 1, SPRINTS_END_BYTE)]"
    by (simp only: sv(2) f)
  from 1 2 3 4 show ?thesis by blast
qed

text \<open>
  Claim C10. When the day of the year read inside the save differs from the one held
  before, and no error is raised, the counter is reset to 1 and 1 is what is written to,
  and afterwards read from, the cell of the new day; it is the first write of the save.
\<close>

theorem saveSprint_new_day:
  assumes "errorCode (validateNextDayCell (getCurrentDate now s)) = 0"
    and "currentDayOfYear (validateNextDayCell (getCurrentDate now s)) = d"
    and "d \<noteq> currentDayOfYear s"
  shows "eeprom (saveSprint now s) d = 1
       \<and> sprintCounter (saveSprint now s) = 1
       \<and> currentDayOfYear (saveSprint now s) = d
       \<and> (\<exists>ws. writes (saveSprint now s) = writes s @ (d, 1) # ws)"
  using assms(3) saveSprint_saved [OF assms(1), unfolded assms(2)]
  by (simp add: SPRINTS_END_BYTE_def)

text \<open>
  Claim C4, as amended. With no earlier error, the look-ahead check raises the fault 3
  (state \<^verbatim>\<open>ERROR\<close>) exactly if the byte at \<open>d + 2\<close> is neither the empty value nor a
  count below 58. A count 0..57 there is taken for the data of a completed cycle and is
  not a fault: the check then changes nothing, as it does for the empty value.
\<close>

theorem validateNextDayCell_fault:
  "errorCode s = 0 \<Longrightarrow>
   ((errorCode (validateNextDayCell s) = 3 \<and> operatingState (validateNextDayCell s) = ERROR)
      = (eeprom s (currentDayOfYear s + 2) \<noteq> EMPTY_VALUE
         \<and> \<not> eeprom s (currentDayOfYear s + 2) < 58))
   \<and> (eeprom s (currentDayOfYear s + 2) = EMPTY_VALUE
        \<or> eeprom s (currentDayOfYear s + 2) < 58 \<longrightarrow> validateNextDayCell s = s)"
  by (simp add: validateNextDayCell_def Let_def)

lemma powerOn_fields:
  "eeprom (powerOn e c) = e"
  "writes (powerOn e c) = []"
  "storedConfig (powerOn e c) = c"
  "operatingState (powerOn e c) = STANDBY"
  "errorCode (powerOn e c) = 0"
  "sprintCounter (powerOn e c) = 0"
  "currentDayOfYear (powerOn e c) = 1"
  by (simp_all add: powerOn_def)

lemma dayOfYearOf_examples:
  "dayOfYearOf 2026 3 5 = 64"
  "dayOfYearOf 2026 4 11 = 101"
  "dayOfYearOf 2027 4 13 = 103"
  by (simp_all add: dayOfYearOf_def dim_def isLeapYear_def upt_rec)

lemma sane_examples:
  "isRtcDateTimeSane \<lparr>Year = 2026, Month = 3, Day = 5, Hour = 10, Minute = 0, Second = 0, DayOfWeek = 4\<rparr>"
  "isRtcDateTimeSane \<lparr>Year = 2026, Month = 4, Day = 11, Hour = 0, Minute = 2, Second = 0, DayOfWeek = 6\<rparr>"
  "isRtcDateTimeSane \<lparr>Year = 2027, Month = 4, Day = 13, Hour = 9, Minute = 0, Second = 0, DayOfWeek = 2\<rparr>"
  by (simp_all add: isRtcDateTimeSane_def getDaysInMonth_def dim_def isLeapYear_def)

text \<open>
  Claim C1, witness: the third sprint of 5 March 2026 (day 64) on an empty log.
\<close>

theorem saveSprint_log_witness:
  "eeprom (saveSprint \<lparr>Year = 2026, Month = 3, Day = 5, Hour = 10, Minute = 0, Second = 0, DayOfWeek = 4\<rparr>
        ((powerOn (\<lambda>_. EMPTY_VALUE) zeroConfig)\<lparr>currentDayOfYear := 64, sprintCounter := 3\<rparr>)) 64 = 3
   \<and> eeprom (saveSprint \<lparr>Year = 2026, Month = 3, Day = 5, Hour = 10, Minute = 0, Second = 0, DayOfWeek = 4\<rparr>
        ((powerOn (\<lambda>_. EMPTY_VALUE) zeroConfig)\<lparr>currentDayOfYear := 64, sprintCounter := 3\<rparr>)) 65 = SPRINTS_END_BYTE
   \<and> writes (saveSprint \<lparr>Year = 2026, Month = 3, Day = 5, Hour = 10, Minute = 0, Second = 0, DayOfWeek = 4\<rparr>
        ((powerOn (\<lambda>_. EMPTY_VALUE) zeroConfig)\<lparr>currentDayOfYear := 64, sprintCounter := 3\<rparr>))
       = [(64, 3), (65, SPRINTS_END_BYTE)]"
proof -
  let ?now = "\<lparr>Year = 2026, Month = 3, Day = 5, Hour = 10, Minute = 0, Second = 0, DayOfWeek = 4\<rparr>"
  let ?s = "(powerOn (\<lambda>_. EMPTY_VALUE) zeroConfig)\<lparr>currentDayOfYear := 64, sprintCounter := 3\<rparr>"
  have h1: "errorCode (validateNextDayCell (getCurrentDate ?now ?s)) = 0"
    by (simp add: validateNextDayCell_def getCurrentDate_def sane_examples dayOfYearOf_examples
          powerOn_fields EMPTY_VALUE_def SPRINTS_END_BYTE_def)
  have h2: "currentDayOfYear (validateNextDayCell (getCurrentDate ?now ?s)) = 64"
    by (simp add: validateNextDayCell_keeps getCurrentDate_def sane_examples dayOfYearOf_examples)
  have h5: "(if 64 = currentDayOfYear ?s then sprintCounter ?s else 1) = 3"
    by (simp add: powerOn_fields)
  have e: "filter (\<lambda>a. eeprom ?s a = SPRINTS_END_BYTE \<and> a \<noteq> 64 \<and> a \<noteq> 64 + 1) [2..367] = []"
    using EMPTY_not_END by (simp add: powerOn_fields)
  show ?thesis
    using saveSprint_log [OF h1 h2 _ _ h5] e
    by (simp add: powerOn_fields)
qed

text \<open>
  Claim C1 as stated fails: with the end byte in cell 1 before the save, a save on day 64
  raises no error and leaves the end byte both in cell 1 and in cell 65.
\<close>

theorem saveSprint_cell1_counterexample:
  "eeprom (saveSprint \<lparr>Year = 2026, Month = 3, Day = 5, Hour = 10, Minute = 0, Second = 0, DayOfWeek = 4\<rparr>
        ((powerOn ((\<lambda>_. EMPTY_VALUE)(1 := SPRINTS_END_BYTE)) zeroConfig)\<lparr>currentDayOfYear := 64, sprintCounter := 3\<rparr>)) 1 = SPRINTS_END_BYTE
   \<and> eeprom (saveSprint \<lparr>Year = 2026, Month = 3, Day = 5, Hour = 10, Minute = 0, Second = 0, DayOfWeek = 4\<rparr>
        ((powerOn ((\<lambda>_. EMPTY_VALUE)(1 := SPRINTS_END_BYTE)) zeroConfig)\<lparr>currentDayOfYear := 64, sprintCounter := 3\<rparr>)) 65 = SPRINTS_END_BYTE
   \<and> errorCode (saveSprint \<lparr>Year = 2026, Month = 3, Day = 5, Hour = 10, Minute = 0, Second = 0, DayOfWeek = 4\<rparr>
        ((powerOn ((\<lambda>_. EMPTY_VALUE)(1 := SPRINTS_END_BYTE)) zeroConfig)\<lparr>currentDayOfYear := 64, sprintCounter := 3\<rparr>)) = 0"
proof -
  let ?now = "\<lparr>Year = 2026, Month = 3, Day = 5, Hour = 10, Minute = 0, Second = 0, DayOfWeek = 4\<rparr>"
  let ?s = "(powerOn ((\<lambda>_. EMPTY_VALUE)(1 := SPRINTS_END_BYTE)) zeroConfig)\<lparr>currentDayOfYear := 64, sprintCounter := 3\<rparr>"
  have h1: "errorCode (validateNextDayCell (getCurrentDate ?now ?s)) = 0"
    by (simp add: validateNextDayCell_def getCurrentDate_def sane_examples dayOfYearOf_examples
          powerOn_fields EMPTY_VALUE_def SPRINTS_END_BYTE_def)
  have h2: "currentDayOfYear (validateNextDayCell (getCurrentDate ?now ?s)) = 64"
    by (simp add: validateNextDayCell_keeps getCurrentDate_def sane_examples dayOfYearOf_examples)
  show ?thesis
    using saveSprint_saved [OF h1]
    by (simp add: h2 powerOn_fields)
qed

text \<open>Claim C4, witness: the byte 99 in cell 102 on day 100 raises the fault.\<close>

theorem validateNextDayCell_fault_witness:
  "errorCode ((powerOn ((\<lambda>_. EMPTY_VALUE)(102 := 99)) zeroConfig)\<lparr>currentDayOfYear := 100\<rparr>) = 0
   \<and> errorCode (validateNextDayCell
        ((powerOn ((\<lambda>_. EMPTY_VALUE)(102 := 99)) zeroConfig)\<lparr>currentDayOfYear := 100\<rparr>)) = 3
   \<and> operatingState (validateNextDayCell
        ((powerOn ((\<lambda>_. EMPTY_VALUE)(102 := 99)) zeroConfig)\<lparr>currentDayOfYear := 100\<rparr>)) = ERROR"
  using validateNextDayCell_fault [of "(powerOn ((\<lambda>_. EMPTY_VALUE)(102 := 99)) zeroConfig)\<lparr>currentDayOfYear := 100\<rparr>"]
  by (simp add: powerOn_fields EMPTY_VALUE_def)

text \<open>
  Claim C4 as stated fails: the count 5 in cell 102 on day 100 is a non-empty byte and
  raises no fault.
\<close>

theorem validateNextDayCell_count_counterexample:
  "eeprom ((powerOn ((\<lambda>_. EMPTY_VALUE)(102 := 5)) zeroConfig)\<lparr>currentDayOfYear := 100\<rparr>) (100 + 2)
      \<noteq> EMPTY_VALUE
   \<and> errorCode (validateNextDayCell
        ((powerOn ((\<lambda>_. EMPTY_VALUE)(102 := 5)) zeroConfig)\<lparr>currentDayOfYear := 100\<rparr>)) = 0
   \<and> operatingState (validateNextDayCell
        ((powerOn ((\<lambda>_. EMPTY_VALUE)(102 := 5)) zeroConfig)\<lparr>currentDayOfYear := 100\<rparr>)) = STANDBY"
  by (simp add: validateNextDayCell_def powerOn_fields EMPTY_VALUE_def)

text \<open>
  Claim C10, witness: seven sprints on day 100, the eighth ends on 11 April 2026 (day 101).
\<close>

theorem saveSprint_new_day_witness:
  "eeprom (saveSprint \<lparr>Year = 2026, Month = 4, Day = 11, Hour = 0, Minute = 2, Second = 0, DayOfWeek = 6\<rparr>
        ((powerOn (\<lambda>_. EMPTY_VALUE) zeroConfig)\<lparr>currentDayOfYear := 100, sprintCounter := 7\<rparr>)) 101 = 1
   \<and> sprintCounter (saveSprint \<lparr>Year = 2026, Month = 4, Day = 11, Hour = 0, Minute = 2, Second = 0, DayOfWeek = 6\<rparr>
        ((powerOn (\<lambda>_. EMPTY_VALUE) zeroConfig)\<lparr>currentDayOfYear := 100, sprintCounter := 7\<rparr>)) = 1"
proof -
  let ?now = "\<lparr>Year = 2026, Month = 4, Day = 11, Hour = 0, Minute = 2, Second = 0, DayOfWeek = 6\<rparr>"
  let ?s = "(powerOn (\<lambda>_. EMPTY_VALUE) zeroConfig)\<lparr>currentDayOfYear := 100, sprintCounter := 7\<rparr>"
  have h1: "errorCode (validateNextDayCell (getCurrentDate ?now ?s)) = 0"
    by (simp add: validateNextDayCell_def getCurrentDate_def sane_examples dayOfYearOf_examples
          powerOn_fields EMPTY_VALUE_def SPRINTS_END_BYTE_def)
  have h2: "currentDayOfYear (validateNextDayCell (getCurrentDate ?now ?s)) = 101"
    by (simp add: validateNextDayCell_keeps getCurrentDate_def sane_examples dayOfYearOf_examples)
  have h3: "101 \<noteq> currentDayOfYear ?s"
    by simp
  show ?thesis
    using saveSprint_new_day [OF h1 h2 h3] by simp
qed

section \<open>Properties of the start-up routine\<close>

lemma fillZero_frame:
  "fillZero cells s = s\<lparr>eeprom := eeprom (fillZero cells s), writes := writes (fillZero cells s)\<rparr>"
proof (induction cells arbitrary: s)
  case Nil
  show ?case by (simp add: fillZero_def)
next
  case (Cons x xs)
  have step: "EEPROM_update x 0 s
            = s\<lparr>eeprom := eeprom (EEPROM_update x 0 s), writes := writes (EEPROM_update x 0 s)\<rparr>"
    by (simp add: EEPROM_update_def)
  show ?case
    using frame_trans [OF step Cons.IH [of "EEPROM_update x 0 s"]]
    by (simp add: fillZero_def)
qed

lemma fillZero_eeprom:
  "eeprom (fillZero cells s) a = (if a \<in> set cells then 0 else eeprom s a)"
  by (induction cells arbitrary: s) (auto simp: fillZero_def EEPROM_update_def)

lemma fillZero_writes:
  "writes (fillZero cells s) = writes s @ map (\<lambda>i. (i, 0)) cells"
  by (induction cells arbitrary: s) (auto simp: fillZero_def EEPROM_update_def)

lemma fillZero_keeps:
  "currentDayOfYear (fillZero cells s) = currentDayOfYear s"
  "sprintCounter (fillZero cells s) = sprintCounter s"
  "errorCode (fillZero cells s) = errorCode s"
  "operatingState (fillZero cells s) = operatingState s"
  by (subst fillZero_frame, simp)+

lemma reconcileOnBoot_keeps:
  "currentDayOfYear (reconcileOnBoot now s) = currentDayOfYear s"
  "errorCode (reconcileOnBoot now s) = errorCode s"
  "operatingState (reconcileOnBoot now s) = operatingState s"
  by (simp_all add: reconcileOnBoot_def Let_def EEPROM_update_def fillZero_keeps)

text \<open>The start-up routine writes nothing unless it has days to fill.\<close>

lemma reconcileOnBoot_no_fill:
  assumes "\<not> (errorCode s = 0 \<and> operatingState s = STANDBY
              \<and> \<not> (eeprom s (currentDayOfYear s) \<noteq> EMPTY_VALUE
                    \<and> eeprom s (currentDayOfYear s) \<noteq> SPRINTS_END_BYTE
                    \<and> eeprom s (currentDayOfYear s + 1) = SPRINTS_END_BYTE)
              \<and> latestSavedDayOfYear (eeprom s) > 0
              \<and> currentDayOfYear s \<noteq> latestSavedDayOfYear (eeprom s))"
  shows "eeprom (reconcileOnBoot now s) = eeprom s \<and> writes (reconcileOnBoot now s) = writes s"
  using assms by (auto simp: reconcileOnBoot_def Let_def)

text \<open>When it fills, today's cell ends up zero and the end byte follows it.\<close>

lemma reconcileOnBoot_fill:
  assumes "errorCode s = 0" and "operatingState s = STANDBY"
    and "\<not> (eeprom s (currentDayOfYear s) \<noteq> EMPTY_VALUE
            \<and> eeprom s (currentDayOfYear s) \<noteq> SPRINTS_END_BYTE
            \<and> eeprom s (currentDayOfYear s + 1) = SPRINTS_END_BYTE)"
    and "latestSavedDayOfYear (eeprom s) > 0"
    and "currentDayOfYear s \<noteq> latestSavedDayOfYear (eeprom s)"
    and "1 \<le> currentDayOfYear s"
  shows "eeprom (reconcileOnBoot now s) (currentDayOfYear s) = 0
       \<and> eeprom (reconcileOnBoot now s) (currentDayOfYear s + 1) = SPRINTS_END_BYTE"
proof -
  let ?t = "currentDayOfYear s"
  let ?L = "latestSavedDayOfYear (eeprom s)"
  have m: "?t \<in> (\<lambda>i. ?L + i) ` {1..?t - ?L}" if "?L < ?t"
    using that by (intro image_eqI [where x = "?t - ?L"]) auto
  show ?thesis
    using assms m
    by (auto simp: reconcileOnBoot_def Let_def EEPROM_update_def fillZero_keeps fillZero_eeprom)
qed

text \<open>
  Claim C5. On any log and for any day of the year from 1 on, running the second half of
  the start-up routine a second time, right after the first and for the same day, changes
  no cell of the EEPROM and makes no call of \<^verbatim>\<open>EEPROM.update\<close>; the clock readings of
  the two runs may differ.
\<close>

theorem reconcileOnBoot_idempotent:
  assumes "1 \<le> currentDayOfYear s"
  shows "eeprom (reconcileOnBoot now2 (reconcileOnBoot now1 s)) = eeprom (reconcileOnBoot now1 s)
       \<and> writes (reconcileOnBoot now2 (reconcileOnBoot now1 s)) = writes (reconcileOnBoot now1 s)"
proof (cases "errorCode s = 0 \<and> operatingState s = STANDBY
              \<and> \<not> (eeprom s (currentDayOfYear s) \<noteq> EMPTY_VALUE
                    \<and> eeprom s (currentDayOfYear s) \<noteq> SPRINTS_END_BYTE
                    \<and> eeprom s (currentDayOfYear s + 1) = SPRINTS_END_BYTE)
              \<and> latestSavedDayOfYear (eeprom s) > 0
              \<and> currentDayOfYear s \<noteq> latestSavedDayOfYear (eeprom s)")
  case True
  then have "eeprom (reconcileOnBoot now1 s) (currentDayOfYear s) = 0
           \<and> eeprom (reconcileOnBoot now1 s) (currentDayOfYear s + 1) = SPRINTS_END_BYTE"
    using assms by (intro reconcileOnBoot_fill) blast+
  then show ?thesis
    by (intro reconcileOnBoot_no_fill)
       (simp add: reconcileOnBoot_keeps EMPTY_VALUE_def SPRINTS_END_BYTE_def)
next
  case False
  then have same: "eeprom (reconcileOnBoot now1 s) = eeprom s"
    using reconcileOnBoot_no_fill by blast
  show ?thesis
    using False by (intro reconcileOnBoot_no_fill) (simp add: same reconcileOnBoot_keeps)
qed


lemma latest_scan_none:
  "\<forall>a\<in>set xs. e a \<noteq> SPRINTS_END_BYTE \<Longrightarrow>
   foldl (\<lambda>latest address. if e address = SPRINTS_END_BYTE then address - 1 else latest) l xs = l"
  by (induction xs arbitrary: l) simp_all

text \<open>The scan returns the day before the last end byte in 2..367.\<close>

lemma latestSavedDayOfYear_last:
  assumes "1 \<le> L" and "L \<le> 366" and "e (L + 1) = SPRINTS_END_BYTE"
    and "\<forall>a\<in>{L + 2..367}. e a \<noteq> SPRINTS_END_BYTE"
  shows "latestSavedDayOfYear e = L"
proof -
  have split: "[2..367] = [2..L + 1 - 1] @ (L + 1) # [L + 1 + 1..367]"
    using assms(1,2) by (intro upto_split3) auto
  have tail: "\<forall>a\<in>set [L + 1 + 1..367]. e a \<noteq> SPRINTS_END_BYTE"
    using assms(4) by (simp add: add.assoc)
  show ?thesis
    unfolding latestSavedDayOfYear_def split foldl_append foldl_Cons
    using assms(3) by (simp only: latest_scan_none [OF tail] if_True) simp
qed

text \<open>Filling forward within the year: the cells after the latest saved day up to today.\<close>

lemma reconcileOnBoot_fill_forward:
  assumes "errorCode s = 0" and "operatingState s = STANDBY"
    and "1 \<le> L" and "L < currentDayOfYear s" and "currentDayOfYear s \<le> 366"
    and "eeprom s (L + 1) = SPRINTS_END_BYTE"
    and "\<forall>a\<in>{L + 2..367}. eeprom s a \<noteq> SPRINTS_END_BYTE"
  shows "eeprom (reconcileOnBoot now s) a =
           (if L + 1 \<le> a \<and> a \<le> currentDayOfYear s then 0
            else if a = currentDayOfYear s + 1 then SPRINTS_END_BYTE
            else eeprom s a)"
    and "writes (reconcileOnBoot now s) =
           writes s @ map (\<lambda>i. (L + i, 0)) [1..currentDayOfYear s - L]
             @ [(currentDayOfYear s + 1, SPRINTS_END_BYTE)]"
    and "sprintCounter (reconcileOnBoot now s) = sprintCounter s"
proof -
  let ?t = "currentDayOfYear s"
  have latest: "latestSavedDayOfYear (eeprom s) = L"
    using assms by (intro latestSavedDayOfYear_last) auto
  have next_cell: "eeprom s (?t + 1) \<noteq> SPRINTS_END_BYTE"
    using assms(4,5,7) by auto
  have cells: "(\<lambda>i. L + i) ` {1..?t - L} = {L + 1..?t}"
    using image_add_atLeastAtMost [of L 1 "?t - L"] by (simp add: add.commute)
  show "eeprom (reconcileOnBoot now s) a =
           (if L + 1 \<le> a \<and> a \<le> ?t then 0
            else if a = ?t + 1 then SPRINTS_END_BYTE else eeprom s a)"
    using assms(1,2,3,4) next_cell
    by (simp add: reconcileOnBoot_def Let_def latest EEPROM_update_def fillZero_keeps
          fillZero_eeprom cells)
  show "writes (reconcileOnBoot now s) =
           writes s @ map (\<lambda>i. (L + i, 0)) [1..?t - L] @ [(?t + 1, SPRINTS_END_BYTE)]"
    using assms(1,2,3,4) next_cell
    by (simp add: reconcileOnBoot_def Let_def latest EEPROM_update_def fillZero_keeps
          fillZero_writes comp_def)
  show "sprintCounter (reconcileOnBoot now s) = sprintCounter s"
    using assms(1,2,3,4) next_cell
    by (simp add: reconcileOnBoot_def Let_def latest EEPROM_update_def fillZero_keeps)
qed

text \<open>
  Claim C3, as amended. With the single end byte of the log at \<open>L + 1\<close> and today after
  \<open>L\<close>, the routine sets the cells \<open>L + 1\<close> up to and including today to zero, in
  ascending order, then writes the end byte at today + 1, and changes no other cell.
\<close>

theorem reconcileOnBoot_zero_fill:
  assumes "errorCode s = 0" and "operatingState s = STANDBY"
    and "1 \<le> L" and "L < currentDayOfYear s" and "currentDayOfYear s \<le> 366"
    and "\<forall>a\<in>{2..367}. (eeprom s a = SPRINTS_END_BYTE) = (a = L + 1)"
  shows "eeprom (reconcileOnBoot now s) =
           (\<lambda>a. if L + 1 \<le> a \<and> a \<le> currentDayOfYear s then 0
                else if a = currentDayOfYear s + 1 then SPRINTS_END_BYTE
                else eeprom s a)
       \<and> writes (reconcileOnBoot now s) =
           writes s @ map (\<lambda>i. (L + i, 0)) [1..currentDayOfYear s - L]
             @ [(currentDayOfYear s + 1, SPRINTS_END_BYTE)]"
proof -
  have a: "eeprom s (L + 1) = SPRINTS_END_BYTE"
    using assms(3,4,5,6) by auto
  have b: "\<forall>a\<in>{L + 2..367}. eeprom s a \<noteq> SPRINTS_END_BYTE"
    using assms(3,6) by auto
  show ?thesis
    using reconcileOnBoot_fill_forward [OF assms(1-5) a b] by (simp add: fun_eq_iff)
qed


lemma loadConfig_keeps:
  "eeprom (loadConfig s) = eeprom s"
  "writes (loadConfig s) = writes s"
  "errorCode (loadConfig s) = errorCode s"
  "sprintCounter (loadConfig s) = sprintCounter s"
  "currentDayOfYear (loadConfig s) = currentDayOfYear s"
  "operatingState (loadConfig s) =
     (if signature (storedConfig s) \<noteq> CONFIG_SIGNATURE then DATETIMESETUP else operatingState s)"
  by (simp_all add: loadConfig_def Let_def saveConfig_def initConfig_def)

text \<open>The state in which a start-up with a working clock and no fault reaches the second half.\<close>

lemma startup_reaches_reconcile:
  assumes "signature stored = CONFIG_SIGNATURE" and "isRtcDateTimeSane now"
    and "dayOfYearOf (Year now) (Month now) (Day now) = d"
    and "e (d + 2) = EMPTY_VALUE \<or> e (d + 2) < 58"
  shows "\<exists>s3. startup True now nowNewYear (powerOn e stored) = reconcileOnBoot nowNewYear s3
              \<and> eeprom s3 = e \<and> writes s3 = [] \<and> errorCode s3 = 0
              \<and> operatingState s3 = STANDBY \<and> sprintCounter s3 = 0
              \<and> currentDayOfYear s3 = d"
proof -
  let ?s1 = "loadConfig (powerOn e stored)"
  let ?s2 = "?s1\<lparr>config := (config ?s1)\<lparr>muteModeEnabled := False\<rparr>\<rparr>"
  let ?s3 = "validateNextDayCell (getCurrentDate now ?s2)"
  have st: "operatingState ?s2 = STANDBY"
    using assms(1) by (simp add: loadConfig_keeps powerOn_fields)
  have run: "startup True now nowNewYear (powerOn e stored) = reconcileOnBoot nowNewYear ?s3"
    using st by (simp add: startup_def Let_def)
  have g: "eeprom (getCurrentDate now ?s2) = e" "errorCode (getCurrentDate now ?s2) = 0"
    "operatingState (getCurrentDate now ?s2) = STANDBY" "currentDayOfYear (getCurrentDate now ?s2) = d"
    "writes (getCurrentDate now ?s2) = []" "sprintCounter (getCurrentDate now ?s2) = 0"
    using assms(1,2,3) by (simp_all add: getCurrentDate_def loadConfig_keeps powerOn_fields)
  have v: "eeprom ?s3 = e" "writes ?s3 = []" "errorCode ?s3 = 0" "operatingState ?s3 = STANDBY"
    "sprintCounter ?s3 = 0" "currentDayOfYear ?s3 = d"
    using assms(4) g by (auto simp: validateNextDayCell_def Let_def)
  show ?thesis
    using run v by blast
qed

text \<open>
  Claim C2. The log holds 3 at day 100 and the end byte at day 101, with no end byte
  after it; the device starts with a configured EEPROM, a running and sane clock on day
  103 and no fault from the look-ahead cell 105. Then the start-up writes 0 to the days
  101, 102 and 103 and the end byte to 104, in this order and nothing else, day 100 keeps
  its 3, and the running counter is 0.
\<close>

theorem startup_skipped_days_example:
  assumes "signature stored = CONFIG_SIGNATURE" and "isRtcDateTimeSane now"
    and "dayOfYearOf (Year now) (Month now) (Day now) = 103"
    and "e 100 = 3" and "e 101 = SPRINTS_END_BYTE"
    and "\<forall>a\<in>{102..367}. e a \<noteq> SPRINTS_END_BYTE"
    and "e 105 = EMPTY_VALUE \<or> e 105 < 58"
  shows "eeprom (startup True now nowNewYear (powerOn e stored)) 101 = 0
       \<and> eeprom (startup True now nowNewYear (powerOn e stored)) 102 = 0
       \<and> eeprom (startup True now nowNewYear (powerOn e stored)) 103 = 0
       \<and> eeprom (startup True now nowNewYear (powerOn e stored)) 104 = SPRINTS_END_BYTE
       \<and> eeprom (startup True now nowNewYear (powerOn e stored)) 100 = 3
       \<and> sprintCounter (startup True now nowNewYear (powerOn e stored)) = 0
       \<and> writes (startup True now nowNewYear (powerOn e stored))
           = [(101, 0), (102, 0), (103, 0), (104, SPRINTS_END_BYTE)]"
proof -
  from startup_reaches_reconcile [OF assms(1,2,3), of e nowNewYear] assms(7)
  obtain s3 where run: "startup True now nowNewYear (powerOn e stored) = reconcileOnBoot nowNewYear s3"
    and s3: "eeprom s3 = e" "writes s3 = []" "errorCode s3 = 0" "operatingState s3 = STANDBY"
      "sprintCounter s3 = 0" "currentDayOfYear s3 = 103"
    by auto
  have a: "eeprom s3 (100 + 1) = SPRINTS_END_BYTE"
    using assms(5) s3(1) by simp
  have b: "\<forall>a\<in>{100 + 2..367}. eeprom s3 a \<noteq> SPRINTS_END_BYTE"
    using assms(6) s3(1) by simp
  have c: "(1::int) \<le> 100" "100 < currentDayOfYear s3" "currentDayOfYear s3 \<le> 366"
    using s3(6) by simp_all
  note ff = reconcileOnBoot_fill_forward [OF s3(3) s3(4) c a b, of nowNewYear]
  have three: "[1..3::int] = [1, 2, 3]"
    by (simp add: upto_rec1 upto_rec_numeral)
  show ?thesis
    unfolding run using assms(4) s3
    by (simp add: ff three)
qed


text \<open>
  Claim C2, witness: the log of the example, otherwise empty, started on 13 April 2027.
\<close>

theorem startup_skipped_days_example_witness:
  "eeprom (startup True \<lparr>Year = 2027, Month = 4, Day = 13, Hour = 9, Minute = 0, Second = 0, DayOfWeek = 2\<rparr> \<lparr>Year = 2027, Month = 4, Day = 13, Hour = 9, Minute = 0, Second = 0, DayOfWeek = 2\<rparr> (powerOn ((\<lambda>_::int. EMPTY_VALUE)(100 := 3, 101 := SPRINTS_END_BYTE)) (zeroConfig\<lparr>signature := CONFIG_SIGNATURE\<rparr>))) 101 = 0
   \<and> eeprom (startup True \<lparr>Year = 2027, Month = 4, Day = 13, Hour = 9, Minute = 0, Second = 0, DayOfWeek = 2\<rparr> \<lparr>Year = 2027, Month = 4, Day = 13, Hour = 9, Minute = 0, Second = 0, DayOfWeek = 2\<rparr> (powerOn ((\<lambda>_::int. EMPTY_VALUE)(100 := 3, 101 := SPRINTS_END_BYTE)) (zeroConfig\<lparr>signature := CONFIG_SIGNATURE\<rparr>))) 102 = 0
   \<and> eeprom (startup True \<lparr>Year = 2027, Month = 4, Day = 13, Hour = 9, Minute = 0, Second = 0, DayOfWeek = 2\<rparr> \<lparr>Year = 2027, Month = 4, Day = 13, Hour = 9, Minute = 0, Second = 0, DayOfWeek = 2\<rparr> (powerOn ((\<lambda>_::int. EMPTY_VALUE)(100 := 3, 101 := SPRINTS_END_BYTE)) (zeroConfig\<lparr>signature := CONFIG_SIGNATURE\<rparr>))) 103 = 0
   \<and> eeprom (startup True \<lparr>Year = 2027, Month = 4, Day = 13, Hour = 9, Minute = 0, Second = 0, DayOfWeek = 2\<rparr> \<lparr>Year = 2027, Month = 4, Day = 13, Hour = 9, Minute = 0, Second = 0, DayOfWeek = 2\<rparr> (powerOn ((\<lambda>_::int. EMPTY_VALUE)(100 := 3, 101 := SPRINTS_END_BYTE)) (zeroConfig\<lparr>signature := CONFIG_SIGNATURE\<rparr>))) 104 = SPRINTS_END_BYTE
   \<and> eeprom (startup True \<lparr>Year = 2027, Month = 4, Day = 13, Hour = 9, Minute = 0, Second = 0, DayOfWeek = 2\<rparr> \<lparr>Year = 2027, Month = 4, Day = 13, Hour = 9, Minute = 0, Second = 0, DayOfWeek = 2\<rparr> (powerOn ((\<lambda>_::int. EMPTY_VALUE)(100 := 3, 101 := SPRINTS_END_BYTE)) (zeroConfig\<lparr>signature := CONFIG_SIGNATURE\<rparr>))) 100 = 3
   \<and> sprintCounter (startup True \<lparr>Year = 2027, Month = 4, Day = 13, Hour = 9, Minute = 0, Second = 0, DayOfWeek = 2\<rparr> \<lparr>Year = 2027, Month = 4, Day = 13, Hour = 9, Minute = 0, Second = 0, DayOfWeek = 2\<rparr> (powerOn ((\<lambda>_::int. EMPTY_VALUE)(100 := 3, 101 := SPRINTS_END_BYTE)) (zeroConfig\<lparr>signature := CONFIG_SIGNATURE\<rparr>))) = 0
   \<and> writes (startup True \<lparr>Year = 2027, Month = 4, Day = 13, Hour = 9, Minute = 0, Second = 0, DayOfWeek = 2\<rparr> \<lparr>Year = 2027, Month = 4, Day = 13, Hour = 9, Minute = 0, Second = 0, DayOfWeek = 2\<rparr> (powerOn ((\<lambda>_::int. EMPTY_VALUE)(100 := 3, 101 := SPRINTS_END_BYTE)) (zeroConfig\<lparr>signature := CONFIG_SIGNATURE\<rparr>))) = [(101, 0), (102, 0), (103, 0), (104, SPRINTS_END_BYTE)]"
proof -
  have h1: "signature (zeroConfig\<lparr>signature := CONFIG_SIGNATURE\<rparr>) = CONFIG_SIGNATURE"
    by simp
  have h2: "isRtcDateTimeSane \<lparr>Year = 2027, Month = 4, Day = 13, Hour = 9, Minute = 0, Second = 0, DayOfWeek = 2\<rparr>"
    by (rule sane_examples)
  have h3: "dayOfYearOf (Year \<lparr>Year = 2027, Month = 4, Day = 13, Hour = 9, Minute = 0, Second = 0, DayOfWeek = 2\<rparr>) (Month \<lparr>Year = 2027, Month = 4, Day = 13, Hour = 9, Minute = 0, Second = 0, DayOfWeek = 2\<rparr>) (Day \<lparr>Year = 2027, Month = 4, Day = 13, Hour = 9, Minute = 0, Second = 0, DayOfWeek = 2\<rparr>) = 103"
    by (simp add: dayOfYearOf_examples)
  have h4: "((\<lambda>_::int. EMPTY_VALUE)(100 := 3, 101 := SPRINTS_END_BYTE)) 100 = 3"
    by simp
  have h5: "((\<lambda>_::int. EMPTY_VALUE)(100 := 3, 101 := SPRINTS_END_BYTE)) 101 = SPRINTS_END_BYTE"
    by simp
  have h6: "\<forall>a\<in>{102..367}. ((\<lambda>_::int. EMPTY_VALUE)(100 := 3, 101 := SPRINTS_END_BYTE)) a \<noteq> SPRINTS_END_BYTE"
    using EMPTY_not_END by simp
  have h7: "((\<lambda>_::int. EMPTY_VALUE)(100 := 3, 101 := SPRINTS_END_BYTE)) 105 = EMPTY_VALUE \<or> ((\<lambda>_::int. EMPTY_VALUE)(100 := 3, 101 := SPRINTS_END_BYTE)) 105 < 58"
    by simp
  show ?thesis
    by (rule startup_skipped_days_example [OF h1 h2 h3 h4 h5 h6 h7])
qed

text \<open>Claim C3, witness: latest saved day 100, today 103.\<close>

theorem reconcileOnBoot_zero_fill_witness:
  "eeprom (reconcileOnBoot \<lparr>Year = 2027, Month = 4, Day = 13, Hour = 9, Minute = 0, Second = 0, DayOfWeek = 2\<rparr> ((powerOn ((\<lambda>_::int. EMPTY_VALUE)(100 := 3, 101 := SPRINTS_END_BYTE)) zeroConfig)\<lparr>currentDayOfYear := 103\<rparr>)) =
     (\<lambda>a. if 100 + 1 \<le> a \<and> a \<le> currentDayOfYear ((powerOn ((\<lambda>_::int. EMPTY_VALUE)(100 := 3, 101 := SPRINTS_END_BYTE)) zeroConfig)\<lparr>currentDayOfYear := 103\<rparr>) then 0
          else if a = currentDayOfYear ((powerOn ((\<lambda>_::int. EMPTY_VALUE)(100 := 3, 101 := SPRINTS_END_BYTE)) zeroConfig)\<lparr>currentDayOfYear := 103\<rparr>) + 1 then SPRINTS_END_BYTE
          else eeprom ((powerOn ((\<lambda>_::int. EMPTY_VALUE)(100 := 3, 101 := SPRINTS_END_BYTE)) zeroConfig)\<lparr>currentDayOfYear := 103\<rparr>) a)
   \<and> writes (reconcileOnBoot \<lparr>Year = 2027, Month = 4, Day = 13, Hour = 9, Minute = 0, Second = 0, DayOfWeek = 2\<rparr> ((powerOn ((\<lambda>_::int. EMPTY_VALUE)(100 := 3, 101 := SPRINTS_END_BYTE)) zeroConfig)\<lparr>currentDayOfYear := 103\<rparr>)) =
       writes ((powerOn ((\<lambda>_::int. EMPTY_VALUE)(100 := 3, 101 := SPRINTS_END_BYTE)) zeroConfig)\<lparr>currentDayOfYear := 103\<rparr>) @ map (\<lambda>i. (100 + i, 0)) [1..currentDayOfYear ((powerOn ((\<lambda>_::int. EMPTY_VALUE)(100 := 3, 101 := SPRINTS_END_BYTE)) zeroConfig)\<lparr>currentDayOfYear := 103\<rparr>) - 100]
         @ [(currentDayOfYear ((powerOn ((\<lambda>_::int. EMPTY_VALUE)(100 := 3, 101 := SPRINTS_END_BYTE)) zeroConfig)\<lparr>currentDayOfYear := 103\<rparr>) + 1, SPRINTS_END_BYTE)]"
proof -
  have h1: "errorCode ((powerOn ((\<lambda>_::int. EMPTY_VALUE)(100 := 3, 101 := SPRINTS_END_BYTE)) zeroConfig)\<lparr>currentDayOfYear := 103\<rparr>) = 0"
    by (simp add: powerOn_fields)
  have h2: "operatingState ((powerOn ((\<lambda>_::int. EMPTY_VALUE)(100 := 3, 101 := SPRINTS_END_BYTE)) zeroConfig)\<lparr>currentDayOfYear := 103\<rparr>) = STANDBY"
    by (simp add: powerOn_fields)
  have h3: "(1::int) \<le> 100"
    by simp
  have h4: "100 < currentDayOfYear ((powerOn ((\<lambda>_::int. EMPTY_VALUE)(100 := 3, 101 := SPRINTS_END_BYTE)) zeroConfig)\<lparr>currentDayOfYear := 103\<rparr>)"
    by simp
  have h5: "currentDayOfYear ((powerOn ((\<lambda>_::int. EMPTY_VALUE)(100 := 3, 101 := SPRINTS_END_BYTE)) zeroConfig)\<lparr>currentDayOfYear := 103\<rparr>) \<le> 366"
    by simp
  have h6: "\<forall>a\<in>{2..367}. (eeprom ((powerOn ((\<lambda>_::int. EMPTY_VALUE)(100 := 3, 101 := SPRINTS_END_BYTE)) zeroConfig)\<lparr>currentDayOfYear := 103\<rparr>) a = SPRINTS_END_BYTE) = (a = 100 + 1)"
    using EMPTY_not_END by (simp add: powerOn_fields SPRINTS_END_BYTE_def)
  show ?thesis
    by (rule reconcileOnBoot_zero_fill [OF h1 h2 h3 h4 h5 h6])
qed

text \<open>
  Claim C3 as stated fails: with the latest saved day 100 and today 103, the cell of
  today, empty before, is zero afterwards; it is not strictly between the two days.
\<close>

theorem reconcileOnBoot_today_counterexample:
  "eeprom ((powerOn ((\<lambda>_::int. EMPTY_VALUE)(100 := 3, 101 := SPRINTS_END_BYTE)) zeroConfig)\<lparr>currentDayOfYear := 103\<rparr>) 103 = EMPTY_VALUE
   \<and> currentDayOfYear ((powerOn ((\<lambda>_::int. EMPTY_VALUE)(100 := 3, 101 := SPRINTS_END_BYTE)) zeroConfig)\<lparr>currentDayOfYear := 103\<rparr>) = 103
   \<and> latestSavedDayOfYear (eeprom ((powerOn ((\<lambda>_::int. EMPTY_VALUE)(100 := 3, 101 := SPRINTS_END_BYTE)) zeroConfig)\<lparr>currentDayOfYear := 103\<rparr>)) = 100
   \<and> eeprom (reconcileOnBoot \<lparr>Year = 2027, Month = 4, Day = 13, Hour = 9, Minute = 0, Second = 0, DayOfWeek = 2\<rparr> ((powerOn ((\<lambda>_::int. EMPTY_VALUE)(100 := 3, 101 := SPRINTS_END_BYTE)) zeroConfig)\<lparr>currentDayOfYear := 103\<rparr>)) 103 = 0"
proof -
  have a: "eeprom ((powerOn ((\<lambda>_::int. EMPTY_VALUE)(100 := 3, 101 := SPRINTS_END_BYTE)) zeroConfig)\<lparr>currentDayOfYear := 103\<rparr>) (100 + 1) = SPRINTS_END_BYTE"
    by (simp add: powerOn_fields)
  have b: "\<forall>a\<in>{100 + 2..367}. eeprom ((powerOn ((\<lambda>_::int. EMPTY_VALUE)(100 := 3, 101 := SPRINTS_END_BYTE)) zeroConfig)\<lparr>currentDayOfYear := 103\<rparr>) a \<noteq> SPRINTS_END_BYTE"
    using EMPTY_not_END by (simp add: powerOn_fields)
  have l: "latestSavedDayOfYear (eeprom ((powerOn ((\<lambda>_::int. EMPTY_VALUE)(100 := 3, 101 := SPRINTS_END_BYTE)) zeroConfig)\<lparr>currentDayOfYear := 103\<rparr>)) = 100"
    using a b by (intro latestSavedDayOfYear_last) simp_all
  have f: "eeprom (reconcileOnBoot \<lparr>Year = 2027, Month = 4, Day = 13, Hour = 9, Minute = 0, Second = 0, DayOfWeek = 2\<rparr> ((powerOn ((\<lambda>_::int. EMPTY_VALUE)(100 := 3, 101 := SPRINTS_END_BYTE)) zeroConfig)\<lparr>currentDayOfYear := 103\<rparr>)) 103 = 0"
    using a b by (subst reconcileOnBoot_fill_forward [where L = 100]) (simp_all add: powerOn_fields)
  show ?thesis
    using l f by (simp add: powerOn_fields)
qed

text \<open>
  Claim C5, witness: day 103 on a log saved last on day 100, where the first run fills.
\<close>

theorem reconcileOnBoot_idempotent_witness:
  "eeprom (reconcileOnBoot \<lparr>Year = 2027, Month = 4, Day = 13, Hour = 9, Minute = 0, Second = 0, DayOfWeek = 2\<rparr> (reconcileOnBoot \<lparr>Year = 2027, Month = 4, Day = 13, Hour = 9, Minute = 0, Second = 0, DayOfWeek = 2\<rparr> ((powerOn ((\<lambda>_::int. EMPTY_VALUE)(100 := 3, 101 := SPRINTS_END_BYTE)) zeroConfig)\<lparr>currentDayOfYear := 103\<rparr>))) = eeprom (reconcileOnBoot \<lparr>Year = 2027, Month = 4, Day = 13, Hour = 9, Minute = 0, Second = 0, DayOfWeek = 2\<rparr> ((powerOn ((\<lambda>_::int. EMPTY_VALUE)(100 := 3, 101 := SPRINTS_END_BYTE)) zeroConfig)\<lparr>currentDayOfYear := 103\<rparr>))
   \<and> writes (reconcileOnBoot \<lparr>Year = 2027, Month = 4, Day = 13, Hour = 9, Minute = 0, Second = 0, DayOfWeek = 2\<rparr> (reconcileOnBoot \<lparr>Year = 2027, Month = 4, Day = 13, Hour = 9, Minute = 0, Second = 0, DayOfWeek = 2\<rparr> ((powerOn ((\<lambda>_::int. EMPTY_VALUE)(100 := 3, 101 := SPRINTS_END_BYTE)) zeroConfig)\<lparr>currentDayOfYear := 103\<rparr>))) = writes (reconcileOnBoot \<lparr>Year = 2027, Month = 4, Day = 13, Hour = 9, Minute = 0, Second = 0, DayOfWeek = 2\<rparr> ((powerOn ((\<lambda>_::int. EMPTY_VALUE)(100 := 3, 101 := SPRINTS_END_BYTE)) zeroConfig)\<lparr>currentDayOfYear := 103\<rparr>))"
proof -
  have h: "1 \<le> currentDayOfYear ((powerOn ((\<lambda>_::int. EMPTY_VALUE)(100 := 3, 101 := SPRINTS_END_BYTE)) zeroConfig)\<lparr>currentDayOfYear := 103\<rparr>)"
    by simp
  show ?thesis
    by (rule reconcileOnBoot_idempotent [OF h])
qed

section \<open>Properties of the calendar\<close>

lemma month_cases:
  assumes "1 \<le> (m::nat)" and "m \<le> 12"
  obtains "m = 1" | "m = 2" | "m = 3" | "m = 4" | "m = 5" | "m = 6"
    | "m = 7" | "m = 8" | "m = 9" | "m = 10" | "m = 11" | "m = 12"
proof -
  have "m = 1 \<or> m = 2 \<or> m = 3 \<or> m = 4 \<or> m = 5 \<or> m = 6
      \<or> m = 7 \<or> m = 8 \<or> m = 9 \<or> m = 10 \<or> m = 11 \<or> m = 12"
    using assms by arith
  then show thesis
    using that by blast
qed

lemma getDaysInMonth_in_year:
  assumes "1 \<le> m" and "m \<le> 12"
  shows "\<exists>n. getDaysInMonth y m = Some n \<and> 1 \<le> n"
  using assms(1,2)
  by (rule month_cases) (simp_all add: getDaysInMonth_def dim_def)

text \<open>The day of the year is the day of the month plus the lengths of the months before.\<close>

lemma dayOfYearOf_sum:
  assumes "1 \<le> m" and "m \<le> 12"
  shows "dayOfYearOf y m d
       = int d + int (sum_list (map (\<lambda>j. the (getDaysInMonth y j)) [1..<m]))"
  using assms(1,2)
  by (rule month_cases) (simp_all add: dayOfYearOf_def getDaysInMonth_def dim_def upt_rec)

lemma monthDayLoop_more:
  "getDaysInMonth y m = Some n \<Longrightarrow> int n < day \<Longrightarrow>
   monthDayLoop y day m = monthDayLoop y (day - int n) (m + 1)"
  by (subst monthDayLoop.simps) simp

lemma monthDayLoop_stop:
  "getDaysInMonth y m = Some n \<Longrightarrow> day \<le> int n \<Longrightarrow> monthDayLoop y day m = Some (day, m)"
  by (subst monthDayLoop.simps) simp

text \<open>Started in month \<open>k\<close> with the days of the months \<open>k\<close> to \<open>m - 1\<close> ahead, the loop stops in month \<open>m\<close>.\<close>

lemma monthDayLoop_walk:
  assumes "k \<le> m" and "1 \<le> k" and "m \<le> 12" and "1 \<le> d"
    and "getDaysInMonth y m = Some n" and "d \<le> n"
  shows "monthDayLoop y (int d + int (sum_list (map (\<lambda>j. the (getDaysInMonth y j)) [k..<m]))) k
       = Some (int d, m)"
  using assms(1,2)
proof (induction k rule: inc_induct)
  case base
  show ?case
    using assms(5,6) by (simp add: monthDayLoop_stop)
next
  case (step k)
  obtain nk where nk: "getDaysInMonth y k = Some nk"
    using getDaysInMonth_in_year [of k y] step.prems step.hyps assms(3) by auto
  have list: "[k..<m] = k # [Suc k..<m]"
    using step.hyps by (simp add: upt_conv_Cons)
  have more: "int nk < int d + int (sum_list (map (\<lambda>j. the (getDaysInMonth y j)) [k..<m]))"
    using assms(4) by (simp add: list nk)
  have "monthDayLoop y (int d + int (sum_list (map (\<lambda>j. the (getDaysInMonth y j)) [k..<m]))) k
      = monthDayLoop y
          (int d + int (sum_list (map (\<lambda>j. the (getDaysInMonth y j)) [k..<m])) - int nk) (k + 1)"
    by (rule monthDayLoop_more [OF nk more])
  also have "int d + int (sum_list (map (\<lambda>j. the (getDaysInMonth y j)) [k..<m])) - int nk
      = int d + int (sum_list (map (\<lambda>j. the (getDaysInMonth y j)) [Suc k..<m]))"
    by (simp add: list nk)
  finally show ?case
    using step.IH by simp
qed

lemma dayOfYearOf_roundtrip:
  assumes "1 \<le> m" and "m \<le> 12" and "1 \<le> d" and "getDaysInMonth y m = Some n" and "d \<le> n"
  shows "monthDayLoop y (dayOfYearOf y m d) 1 = Some (int d, m)"
  using monthDayLoop_walk [OF assms(1) _ assms(2,3,4,5)]
  by (simp add: dayOfYearOf_sum [OF assms(1,2)])

lemma dayOfYearOf_last: "dayOfYearOf y 12 31 = (if isLeapYear y then 366 else 365)"
  by (simp add: dayOfYearOf_def dim_def upt_rec)

text \<open>Every day of the year 1..365 (366 in a leap year) is the day of the year of a date.\<close>

lemma dayOfYearOf_onto:
  assumes "1 \<le> k" and "k \<le> (if isLeapYear y then 366 else 365)"
  shows "\<exists>m d n. 1 \<le> m \<and> m \<le> 12 \<and> 1 \<le> d \<and> getDaysInMonth y m = Some n \<and> d \<le> n
                \<and> dayOfYearOf y m d = k"
  using assms
proof (induction k rule: int_ge_induct)
  case base
  have "getDaysInMonth y 1 = Some 31" "dayOfYearOf y 1 1 = 1"
    by (simp_all add: getDaysInMonth_def dim_def dayOfYearOf_def)
  then show ?case
    by (intro exI [of _ "1::nat"] exI [of _ "31::nat"]) simp
next
  case (step k)
  then obtain m d n where md: "1 \<le> m" "m \<le> 12" "1 \<le> d" "getDaysInMonth y m = Some n" "d \<le> n"
      "dayOfYearOf y m d = k"
    by auto
  show ?case
  proof (cases "d < n")
    case True
    have "dayOfYearOf y m (d + 1) = k + 1"
      using md(6) by (simp add: dayOfYearOf_sum [OF md(1,2)])
    then show ?thesis
      using md True by (intro exI [of _ m] exI [of _ "d + 1"] exI [of _ n]) simp
  next
    case False
    then have dn: "d = n" using md(5) by simp
    show ?thesis
    proof (cases "m < 12")
      case True
      obtain n' where n': "getDaysInMonth y (m + 1) = Some n'" "1 \<le> n'"
        using getDaysInMonth_in_year [of "m + 1" y] True by auto
      have s1: "dayOfYearOf y (m + 1) 1
              = int 1 + int (sum_list (map (\<lambda>j. the (getDaysInMonth y j)) [1..<m + 1]))"
        using True by (intro dayOfYearOf_sum) simp_all
      have s2: "dayOfYearOf y m d
              = int d + int (sum_list (map (\<lambda>j. the (getDaysInMonth y j)) [1..<m]))"
        by (rule dayOfYearOf_sum [OF md(1,2)])
      have "[1..<m + 1] = [1..<m] @ [m]"
        using md(1) by simp
      then have "dayOfYearOf y (m + 1) 1 = k + 1"
        using s1 s2 md(4,6) dn by simp
      then show ?thesis
        using n' True by (intro exI [of _ "m + 1"] exI [of _ "1::nat"] exI [of _ n']) simp
    next
      case False
      then have m: "m = 12" using md(2) by simp
      have "n = 31"
        using md(4) by (simp add: m getDaysInMonth_def dim_def)
      then have "k = (if isLeapYear y then 366 else 365)"
        using md(6) dn m dayOfYearOf_last by simp
      then show ?thesis
        using step.prems by (simp split: if_splits)
    qed
  qed
qed

text \<open>
  Claim C6. For every year, \<^verbatim>\<open>isLeapYear\<close> is the Gregorian rule. For every date of the
  year \<open>y\<close> (month 1..12, day 1 up to the length of the month), the day of the year
  computed as in \<^verbatim>\<open>getCurrentDate\<close> is turned back into the same day and month by
  \<^verbatim>\<open>getDateFromDayOfYear\<close>, when the year it resolves to is \<open>y\<close>. Conversely every
  day of the year from 1 to 365 (366 in a leap year) is turned into a date of \<open>y\<close> whose
  day of the year it is. The loop returns in all these cases.
\<close>

theorem calendar_roundtrip:
  "isLeapYear y = (4 dvd unat y \<and> (\<not> 100 dvd unat y \<or> 400 dvd unat y))
   \<and> (\<forall>m d n. 1 \<le> m \<and> m \<le> 12 \<and> 1 \<le> d \<and> getDaysInMonth y m = Some n \<and> d \<le> n
          \<and> resolveYear (dayOfYearOf y m d) s = y
        \<longrightarrow> getDateFromDayOfYear (dayOfYearOf y m d) s = Some (int d, m))
   \<and> (\<forall>k. 1 \<le> k \<and> k \<le> (if isLeapYear y then 366 else 365) \<and> resolveYear k s = y
        \<longrightarrow> (\<exists>m d n. getDateFromDayOfYear k s = Some (int d, m)
                  \<and> 1 \<le> m \<and> m \<le> 12 \<and> 1 \<le> d \<and> getDaysInMonth y m = Some n \<and> d \<le> n
                  \<and> dayOfYearOf y m d = k))"
proof (intro conjI allI impI)
  show "isLeapYear y = (4 dvd unat y \<and> (\<not> 100 dvd unat y \<or> 400 dvd unat y))"
    by (simp add: isLeapYear_def dvd_eq_mod_eq_0)
next
  fix m d n
  assume "1 \<le> m \<and> m \<le> 12 \<and> 1 \<le> d \<and> getDaysInMonth y m = Some n \<and> d \<le> n
          \<and> resolveYear (dayOfYearOf y m d) s = y"
  then have md: "1 \<le> m" "m \<le> 12" "1 \<le> d" "getDaysInMonth y m = Some n" "d \<le> n"
    and ry: "resolveYear (dayOfYearOf y m d) s = y"
    by simp_all
  show "getDateFromDayOfYear (dayOfYearOf y m d) s = Some (int d, m)"
    using dayOfYearOf_roundtrip [OF md] by (simp add: getDateFromDayOfYear_def ry)
next
  fix k
  assume k: "1 \<le> k \<and> k \<le> (if isLeapYear y then 366 else 365) \<and> resolveYear k s = y"
  then obtain m d n where md: "1 \<le> m" "m \<le> 12" "1 \<le> d" "getDaysInMonth y m = Some n" "d \<le> n"
      "dayOfYearOf y m d = k"
    using dayOfYearOf_onto [of k y] by blast
  have "getDateFromDayOfYear k s = Some (int d, m)"
    using k dayOfYearOf_roundtrip [OF md(1-5)] by (simp add: getDateFromDayOfYear_def md(6))
  then show "\<exists>m d n. getDateFromDayOfYear k s = Some (int d, m)
                  \<and> 1 \<le> m \<and> m \<le> 12 \<and> 1 \<le> d \<and> getDaysInMonth y m = Some n \<and> d \<le> n
                  \<and> dayOfYearOf y m d = k"
    using md by blast
qed


text \<open>Claim C6, witness: 5 March of the leap year 2028 is day 65.\<close>

theorem calendar_roundtrip_witness:
  "isLeapYear 2028
   \<and> dayOfYearOf 2028 3 5 = 65
   \<and> getDateFromDayOfYear (dayOfYearOf 2028 3 5)
        ((powerOn (\<lambda>_. EMPTY_VALUE) zeroConfig)\<lparr>currentDayOfYear := 200, currentYear := 2028\<rparr>)
       = Some (5, 3)"
proof -
  let ?s = "(powerOn (\<lambda>_. EMPTY_VALUE) zeroConfig)\<lparr>currentDayOfYear := 200, currentYear := 2028\<rparr>"
  have leap: "isLeapYear 2028"
    by (simp add: isLeapYear_def)
  have doy: "dayOfYearOf 2028 3 5 = 65"
    by (simp add: dayOfYearOf_def dim_def upt_rec leap)
  have h: "1 \<le> (3::nat) \<and> (3::nat) \<le> 12 \<and> 1 \<le> (5::nat) \<and> getDaysInMonth 2028 3 = Some 31
           \<and> (5::nat) \<le> 31 \<and> resolveYear (dayOfYearOf 2028 3 5) ?s = 2028"
    by (simp add: getDaysInMonth_def dim_def resolveYear_def doy)
  have "getDateFromDayOfYear (dayOfYearOf 2028 3 5) ?s = Some (int 5, 3)"
    using calendar_roundtrip [of 2028 ?s] h by blast
  then show ?thesis
    using leap doy by simp
qed

section \<open>Properties of the statistics\<close>

lemma smod_nonneg: "0 \<le> a \<Longrightarrow> a smod 7 = a mod (7::int)"
  by (cases "a = 0") (simp_all add: signed_modulo_int_def)

lemma wrap16_id: "0 \<le> x \<Longrightarrow> x \<le> 32767 \<Longrightarrow> wrap16 x = x"
  unfolding wrap16_def by (simp add: sint_sbintrunc' signed_take_bit_int_eq_self)

lemma sundayAs7_range: "1 \<le> sundayAs7 (a mod 7) \<and> sundayAs7 (a mod 7) \<le> 7"
proof -
  define b where "b = a mod 7"
  have "0 \<le> b" "b < 7"
    by (simp_all add: b_def)
  then have "1 \<le> sundayAs7 b \<and> sundayAs7 b \<le> 7"
    by (auto simp: sundayAs7_def)
  then show ?thesis
    by (simp add: b_def)
qed

lemma Max_absorb_first:
  fixes a c :: int
  shows "Max (set (max a c # xs)) = Max (set (a # c # xs))"
  by (cases "set xs = {}") (simp_all add: max.assoc)

lemma Min_absorb_first:
  fixes a c :: int
  shows "Min (set (min a c # xs)) = Min (set (a # c # xs))"
  by (cases "set xs = {}") (simp_all add: min.assoc)

text \<open>One step of the loop against the filter of the specification.\<close>

lemma accumulate_counted:
  assumes "1 \<le> snd cell" and "snd cell \<le> 7"
  shows "accumulate cfg acc cell =
           (if countedBySpec (countingDoWs cfg) cell
            then \<lparr>totalSprints = wrap16 (totalSprints acc + uint (fst cell)),
                  totalDays = wrap16 (totalDays acc + 1),
                  maximum = max (maximum acc) (uint (fst cell)),
                  minimum = min (minimum acc) (uint (fst cell))\<rparr>
            else acc)"
proof -
  have w: "(snd cell \<ge> 6) = (snd cell = 6 \<or> snd cell = 7)"
    using assms by auto
  show ?thesis
    by (auto simp: accumulate_def countedBySpec_def Let_def w max_def min_def)
qed

lemma counts_nonneg: "0 \<le> sum_list (map (\<lambda>cell. uint (fst cell)) cells)"
  by (rule sum_list_nonneg) auto

text \<open>
  The loop against the re-scan, as long as the total and the number of days stay within
  the 16-bit \<^verbatim>\<open>int\<close>: no partial sum is above the final one, so nothing wraps.
\<close>

lemma accumulate_fold:
  assumes "\<forall>cell\<in>set cells. 1 \<le> snd cell \<and> snd cell \<le> 7"
    and "0 \<le> totalSprints acc" and "0 \<le> totalDays acc"
    and "totalSprints acc
           + sum_list (map (\<lambda>cell. uint (fst cell)) (filter (countedBySpec (countingDoWs cfg)) cells))
         \<le> 32767"
    and "totalDays acc
           + int (length (filter (countedBySpec (countingDoWs cfg)) cells)) \<le> 32767"
  shows "foldl (accumulate cfg) acc cells =
           \<lparr>totalSprints = totalSprints acc
               + sum_list (map (\<lambda>cell. uint (fst cell)) (filter (countedBySpec (countingDoWs cfg)) cells)),
            totalDays = totalDays acc
               + int (length (map (\<lambda>cell. uint (fst cell)) (filter (countedBySpec (countingDoWs cfg)) cells))),
            maximum = Max (set (maximum acc
               # map (\<lambda>cell. uint (fst cell)) (filter (countedBySpec (countingDoWs cfg)) cells))),
            minimum = Min (set (minimum acc
               # map (\<lambda>cell. uint (fst cell)) (filter (countedBySpec (countingDoWs cfg)) cells)))\<rparr>"
  using assms
proof (induction cells arbitrary: acc)
  case Nil
  show ?case by simp
next
  case (Cons c cells)
  let ?rest = "filter (countedBySpec (countingDoWs cfg)) cells"
  have c: "1 \<le> snd c" "snd c \<le> 7" and rest: "\<forall>cell\<in>set cells. 1 \<le> snd cell \<and> snd cell \<le> 7"
    using Cons.prems(1) by simp_all
  have nn: "0 \<le> sum_list (map (\<lambda>cell. uint (fst cell)) ?rest)"
    by (rule counts_nonneg)
  show ?case
  proof (cases "countedBySpec (countingDoWs cfg) c")
    case True
    let ?acc = "\<lparr>totalSprints = totalSprints acc + uint (fst c),
                  totalDays = totalDays acc + 1,
                  maximum = max (maximum acc) (uint (fst c)),
                  minimum = min (minimum acc) (uint (fst c))\<rparr>"
    have t: "wrap16 (totalSprints acc + uint (fst c)) = totalSprints acc + uint (fst c)"
      using Cons.prems(2,4) True nn by (intro wrap16_id) simp_all
    have d: "wrap16 (totalDays acc + 1) = totalDays acc + 1"
      using Cons.prems(3,5) True by (intro wrap16_id) simp_all
    have step: "accumulate cfg acc c = ?acc"
      using True by (simp add: accumulate_counted [OF c] t d)
    have ih: "foldl (accumulate cfg) ?acc cells =
           \<lparr>totalSprints = totalSprints ?acc + sum_list (map (\<lambda>cell. uint (fst cell)) ?rest),
            totalDays = totalDays ?acc + int (length (map (\<lambda>cell. uint (fst cell)) ?rest)),
            maximum = Max (set (maximum ?acc # map (\<lambda>cell. uint (fst cell)) ?rest)),
            minimum = Min (set (minimum ?acc # map (\<lambda>cell. uint (fst cell)) ?rest))\<rparr>"
      using Cons.prems(2-5) True by (intro Cons.IH [OF rest]) simp_all
    show ?thesis
      using True
      by (simp only: foldl_Cons step ih StatAcc.simps if_True filter.simps list.map
            Max_absorb_first Min_absorb_first)
         simp
  next
    case False
    show ?thesis
      using False Cons.prems(2-5) by (simp add: Cons.IH [OF rest] accumulate_counted [OF c])
  qed
qed

lemma scanPeriod_as_fold:
  "scanPeriod cfg e startDay endDay startDow year =
     foldl (accumulate cfg) initialAcc
       (map (\<lambda>day. (e (fst (resolveDay startDow
                                (prevStartDowOf startDow (daysInPreviousYearOf year))
                                (daysInPreviousYearOf year) day)),
                     snd (resolveDay startDow
                            (prevStartDowOf startDow (daysInPreviousYearOf year))
                            (daysInPreviousYearOf year) day)))
          [startDay..endDay])"
  by (simp add: scanPeriod_def Let_def foldl_map case_prod_beta)

lemma resolveDay_current:
  "1 \<le> day \<Longrightarrow> 0 \<le> startDow \<Longrightarrow>
   resolveDay startDow psd dP day = (day, sundayAs7 ((startDow + (day - 1)) mod 7))"
  by (simp add: resolveDay_def smod_nonneg)

lemma resolveDay_previous:
  "day < 1 \<Longrightarrow> 1 \<le> day + dP \<Longrightarrow> 1 \<le> psd \<Longrightarrow>
   resolveDay startDow psd dP day = (day + dP, sundayAs7 ((psd + (day + dP - 1)) mod 7))"
  by (simp add: resolveDay_def Let_def smod_nonneg)

lemma prevStartDowOf_mod:
  assumes "0 \<le> startDow"
  shows "prevStartDowOf startDow (daysInPreviousYearOf year)
       = sundayAs7 ((startDow - (if isLeapYear (year - 1) then 366 else 365) mod 7 + 7) mod 7)"
  using assms by (simp add: prevStartDowOf_def daysInPreviousYearOf_def smod_nonneg)

text \<open>Counting on from 1 January of the previous year gives the weekdays that counting back from 1 January of this year gives.\<close>

lemma previous_year_weekday:
  "sundayAs7 ((sundayAs7 ((startDow - dP mod 7 + 7) mod 7) + (d + dP - 1)) mod 7)
   = sundayAs7 ((startDow + (d - 1)) mod 7)"
proof -
  let ?x = "startDow - dP mod 7 + 7"
  have "sundayAs7 (?x mod 7) mod 7 = ?x mod 7"
    by (simp add: sundayAs7_def)
  then have "(sundayAs7 (?x mod 7) + (d + dP - 1)) mod 7 = (?x + (d + dP - 1)) mod 7"
    by (rule mod_add_cong) simp
  also have "?x + (d + dP - 1) = startDow + (d - 1) + 7 * (1 + dP div 7)"
    by presburger
  also have "\<dots> mod 7 = (startDow + (d - 1)) mod 7"
    by (rule mod_mult_self2)
  finally show ?thesis
    by simp
qed

lemma window_split:
  "[startDay..endDay] = [startDay..min endDay 0] @ [max startDay 1..endDay]"
proof -
  consider "1 \<le> startDay" | "startDay \<le> 0" "endDay \<le> 0" | "startDay \<le> 0" "1 \<le> endDay"
    by linarith
  then show ?thesis
  proof cases
    case 1
    then have "max startDay 1 = startDay" "min endDay 0 < startDay"
      by simp_all
    then show ?thesis by simp
  next
    case 2
    then have "min endDay 0 = endDay" "endDay < max startDay 1"
      by simp_all
    then show ?thesis by simp
  next
    case 3
    then have "min endDay 0 = 0" "max startDay 1 = 1"
      by simp_all
    then show ?thesis
      using 3 upto_split2 [of startDay 0 endDay] by simp
  qed
qed

text \<open>
  Claim C7. Let the weekday of 1 January be given as a number from 0 to 7, let the window
  start no earlier than one previous year back and end no later than day 366, and let
  the total of the re-scan fit the 16-bit \<^verbatim>\<open>int\<close> (at most 32767; the number of days
  then fits too). Then the accumulators of \<^verbatim>\<open>getStatisticsByPeriod\<close> are those of
  the specification's re-scan over these cells, in this order: for each day \<open>d\<close> of the
  window below 1, cell \<open>d\<close> plus the length of the previous year (366 if it is a leap
  year, 365 otherwise), with the weekday counted on from the weekday of 1 January of the
  previous year; then for each day from 1 on, cell \<open>d\<close> itself. A window that starts at
  day 1 or later scans exactly the cells from its first to its last day. The weekday
  found for a day of the previous year is the one reached by counting back from
  1 January of the current year.
\<close>

theorem scanPeriod_window:
  fixes startDay endDay startDow :: int and year :: "16 word" and e :: "int \<Rightarrow> byte"
  defines "dP \<equiv> (if isLeapYear (year - 1) then 366 else 365)"
  defines "prevJan1 \<equiv> sundayAs7 ((startDow - dP mod 7 + 7) mod 7)"
  defines "cells \<equiv>
             map (\<lambda>d. (e (d + dP), sundayAs7 ((prevJan1 + (d + dP - 1)) mod 7)))
               [startDay..min endDay 0]
             @ map (\<lambda>d. (e d, sundayAs7 ((startDow + (d - 1)) mod 7))) [max startDay 1..endDay]"
  assumes "0 \<le> startDow" and "startDow \<le> 7"
    and "1 \<le> startDay + dP" and "endDay \<le> 366"
    and "totalSprints (naiveRescan (countingDoWs cfg) cells) \<le> 32767"
  shows "scanPeriod cfg e startDay endDay startDow year = naiveRescan (countingDoWs cfg) cells
       \<and> (1 \<le> startDay \<longrightarrow>
            scanPeriod cfg e startDay endDay startDow year =
              naiveRescan (countingDoWs cfg)
                (map (\<lambda>d. (e d, sundayAs7 ((startDow + (d - 1)) mod 7))) [startDay..endDay]))
       \<and> (\<forall>d. sundayAs7 ((prevJan1 + (d + dP - 1)) mod 7) = sundayAs7 ((startDow + (d - 1)) mod 7))"
proof -
  let ?psd = "prevStartDowOf startDow (daysInPreviousYearOf year)"
  have dP: "daysInPreviousYearOf year = dP"
    by (simp add: daysInPreviousYearOf_def dP_def)
  have psd: "?psd = prevJan1"
    using prevStartDowOf_mod [OF assms(4)] by (simp add: prevJan1_def dP_def)
  have psd1: "1 \<le> prevJan1"
    unfolding prevJan1_def using sundayAs7_range by blast
  have prev: "map (\<lambda>day. (e (fst (resolveDay startDow ?psd (daysInPreviousYearOf year) day)),
                           snd (resolveDay startDow ?psd (daysInPreviousYearOf year) day)))
                [startDay..min endDay 0]
            = map (\<lambda>d. (e (d + dP), sundayAs7 ((prevJan1 + (d + dP - 1)) mod 7)))
                [startDay..min endDay 0]"
    using assms(6) psd1 psd by (intro map_cong refl) (simp add: dP resolveDay_previous)
  have cur: "map (\<lambda>day. (e (fst (resolveDay startDow ?psd (daysInPreviousYearOf year) day)),
                           snd (resolveDay startDow ?psd (daysInPreviousYearOf year) day)))
                [max startDay 1..endDay]
            = map (\<lambda>d. (e d, sundayAs7 ((startDow + (d - 1)) mod 7))) [max startDay 1..endDay]"
    using assms(4) by (intro map_cong refl) (simp add: resolveDay_current)
  have fold: "scanPeriod cfg e startDay endDay startDow year
            = foldl (accumulate cfg) initialAcc cells"
    unfolding scanPeriod_as_fold cells_def
    by (subst window_split) (simp only: map_append prev cur)
  have range: "\<forall>cell\<in>set cells. 1 \<le> snd cell \<and> snd cell \<le> 7"
    by (auto simp: cells_def sundayAs7_range)
  have "length cells = length [startDay..endDay]"
    unfolding cells_def by (subst (3) window_split) simp
  also have "\<dots> \<le> 732"
    using assms(6,7) by (simp add: dP_def split: if_splits)
  finally have len: "length cells \<le> 732" .
  have "length (filter (countedBySpec (countingDoWs cfg)) cells) \<le> length cells"
    by (rule length_filter_le)
  then have "length (filter (countedBySpec (countingDoWs cfg)) cells) \<le> 732"
    using len by (rule order_trans)
  then have days: "totalDays initialAcc
        + int (length (filter (countedBySpec (countingDoWs cfg)) cells)) \<le> 32767"
    by (simp add: initialAcc_def)
  have total: "totalSprints initialAcc
        + sum_list (map (\<lambda>cell. uint (fst cell)) (filter (countedBySpec (countingDoWs cfg)) cells))
        \<le> 32767"
    using assms(8) by (simp add: naiveRescan_def initialAcc_def Let_def)
  have zero: "0 \<le> totalSprints initialAcc" "0 \<le> totalDays initialAcc"
    by (simp_all add: initialAcc_def)
  have main: "scanPeriod cfg e startDay endDay startDow year
            = naiveRescan (countingDoWs cfg) cells"
    unfolding fold accumulate_fold [OF range zero total days]
    by (simp add: naiveRescan_def initialAcc_def Let_def)
  have inside: "cells = map (\<lambda>d. (e d, sundayAs7 ((startDow + (d - 1)) mod 7))) [startDay..endDay]"
    if "1 \<le> startDay"
    using that by (simp add: cells_def max_def)
  have weekday: "\<forall>d. sundayAs7 ((prevJan1 + (d + dP - 1)) mod 7) = sundayAs7 ((startDow + (d - 1)) mod 7)"
    unfolding prevJan1_def
    by (intro allI previous_year_weekday)
  show ?thesis
  proof (intro conjI impI)
    show "scanPeriod cfg e startDay endDay startDow year = naiveRescan (countingDoWs cfg) cells"
      by (rule main)
    show "scanPeriod cfg e startDay endDay startDow year =
            naiveRescan (countingDoWs cfg)
              (map (\<lambda>d. (e d, sundayAs7 ((startDow + (d - 1)) mod 7))) [startDay..endDay])"
      if "1 \<le> startDay"
      using main inside [OF that] by simp
    show "\<forall>d. sundayAs7 ((prevJan1 + (d + dP - 1)) mod 7) = sundayAs7 ((startDow + (d - 1)) mod 7)"
      by (rule weekday)
  qed
qed








text \<open>
  Claim C7, witness: the window from day -1 to day 2 of 2027 (1 January a Friday, the
  year before of 365 days) in the Monday-to-Friday mode reads the cells 364, 365, 1 and
  2 and leaves out the Saturday.
\<close>

theorem scanPeriod_window_witness:
  "scanPeriod (zeroConfig\<lparr>countingDoWs := FIVE_DAYS\<rparr>) ((\<lambda>_::int. EMPTY_VALUE)(364 := 4, 365 := 2, 1 := 3, 2 := 1)) (- 1) 2 5 2027
     = \<lparr>totalSprints = 9, totalDays = 3, maximum = 4, minimum = 2\<rparr>"
proof -
  let ?cfg = "zeroConfig\<lparr>countingDoWs := FIVE_DAYS\<rparr>"
  let ?e = "(\<lambda>_::int. EMPTY_VALUE)(364 := 4, 365 := 2, 1 := 3, 2 := 1)"
  have leap: "\<not> isLeapYear 2026"
    by (simp add: isLeapYear_def)
  have days: "[- 1..0::int] = [- 1, 0]" "[1..2::int] = [1, 2]"
    by (simp_all add: upto_rec1)
  have h1: "(0::int) \<le> 5" and h2: "(5::int) \<le> 7" and h4: "(2::int) \<le> 366"
    by simp_all
  have h3: "1 \<le> (- 1::int) + (if isLeapYear (2027 - 1) then 366 else 365)"
    by simp
  have nv: "naiveRescan (countingDoWs ?cfg)
       (map (\<lambda>d. (?e (d + (if isLeapYear (2027 - 1) then 366 else 365)),
                   sundayAs7 ((sundayAs7 ((5 - (if isLeapYear (2027 - 1) then 366 else 365) mod 7 + 7) mod 7)
                      + (d + (if isLeapYear (2027 - 1) then 366 else 365) - 1)) mod 7)))
          [- 1..min 2 0]
        @ map (\<lambda>d. (?e d, sundayAs7 ((5 + (d - 1)) mod 7))) [max (- 1) 1..2])
      = \<lparr>totalSprints = 9, totalDays = 3, maximum = 4, minimum = 2\<rparr>"
    by (simp add: leap days naiveRescan_def countedBySpec_def sundayAs7_def FIVE_DAYS_def
          EMPTY_VALUE_def SPRINTS_END_BYTE_def)
  have h5: "totalSprints (naiveRescan (countingDoWs ?cfg)
       (map (\<lambda>d. (?e (d + (if isLeapYear (2027 - 1) then 366 else 365)),
                   sundayAs7 ((sundayAs7 ((5 - (if isLeapYear (2027 - 1) then 366 else 365) mod 7 + 7) mod 7)
                      + (d + (if isLeapYear (2027 - 1) then 366 else 365) - 1)) mod 7)))
          [- 1..min 2 0]
        @ map (\<lambda>d. (?e d, sundayAs7 ((5 + (d - 1)) mod 7))) [max (- 1) 1..2])) \<le> 32767"
    by (simp only: nv StatAcc.simps)
  show ?thesis
    by (rule trans [OF scanPeriod_window [OF h1 h2 h3 h4 h5, THEN conjunct1] nv])
qed

section \<open>Properties of the sprint scheduler\<close>

lemma setInterval_keeps:
  "currentInterval (setInterval v s) = word_of_int v"
  "eeprom (setInterval v s) = eeprom s"
  "writes (setInterval v s) = writes s"
  "sprintCounter (setInterval v s) = sprintCounter s"
  "errorCode (setInterval v s) = errorCode s"
  "currentDayOfYear (setInterval v s) = currentDayOfYear s"
  by (simp_all add: setInterval_def Let_def)

lemma saveSprint_error:
  "errorCode (validateNextDayCell (getCurrentDate now s)) \<noteq> 0 \<Longrightarrow>
   saveSprint now s = validateNextDayCell (getCurrentDate now s)"
  by (simp add: saveSprint_def Let_def)

text \<open>The clock refresh and the look-ahead check read the EEPROM, the error code and nothing else of the log state.\<close>

lemma refresh_cong:
  assumes "eeprom t = eeprom s" and "errorCode t = errorCode s"
    and "currentDayOfYear t = currentDayOfYear s"
  shows "errorCode (validateNextDayCell (getCurrentDate now t))
           = errorCode (validateNextDayCell (getCurrentDate now s))"
    and "currentDayOfYear (validateNextDayCell (getCurrentDate now t))
           = currentDayOfYear (validateNextDayCell (getCurrentDate now s))"
  using assms by (simp_all add: validateNextDayCell_def getCurrentDate_def Let_def)

text \<open>The end of a work interval, in terms of the state before the tick.\<close>

lemma sprintFinished_result:
  fixes now s
  defines "s1 \<equiv> validateNextDayCell (getCurrentDate now s)"
  defines "s' \<equiv> sprintFinished now s"
  shows "sprintCounter s' =
           (if errorCode s1 = 0 \<and> currentDayOfYear s1 \<noteq> currentDayOfYear s then 1
            else sprintCounter s + 1)"
    and "currentInterval s' = (if unat (sprintCounter s') mod 4 = 0 then 15 else 5)"
    and "errorCode s1 = 0 \<Longrightarrow>
           \<exists>ws. writes s' = writes s @ (currentDayOfYear s1, sprintCounter s') # ws"
    and "errorCode s1 = 0 \<Longrightarrow>
           eeprom s' (currentDayOfYear s1) =
             (if sprintCounter s' = SPRINTS_END_BYTE
                 \<and> 2 \<le> currentDayOfYear s1 \<and> currentDayOfYear s1 \<le> 367
              then EMPTY_VALUE else sprintCounter s')"
    and "errorCode s1 \<noteq> 0 \<Longrightarrow> writes s' = writes s \<and> eeprom s' = eeprom s"
proof -
  let ?t = "(setInterval 0 s)\<lparr>sprintCounter := sprintCounter s + 1\<rparr>"
  let ?t1 = "validateNextDayCell (getCurrentDate now ?t)"
  have e: "errorCode ?t1 = errorCode s1" and d: "currentDayOfYear ?t1 = currentDayOfYear s1"
    unfolding s1_def by (rule refresh_cong; simp add: setInterval_keeps)+
  have fin: "s' = (let s4 = startAnimation (saveSprint now ?t)
                   in if unat (sprintCounter s4) mod 4 = 0 then setInterval 15 s4
                      else setInterval 5 s4)"
    by (simp add: s'_def sprintFinished_def Let_def setInterval_keeps)
  have c: "sprintCounter s' = sprintCounter (saveSprint now ?t)"
    and w: "writes s' = writes (saveSprint now ?t)"
    and m: "eeprom s' = eeprom (saveSprint now ?t)"
    by (simp_all add: fin Let_def setInterval_keeps startAnimation_def)
  show counter: "sprintCounter s' =
           (if errorCode s1 = 0 \<and> currentDayOfYear s1 \<noteq> currentDayOfYear s then 1
            else sprintCounter s + 1)"
  proof (cases "errorCode s1 = 0")
    case True
    then have "errorCode ?t1 = 0" using e by simp
    from saveSprint_saved(3) [OF this] show ?thesis
      using True by (simp add: c d setInterval_keeps)
  next
    case False
    then have "errorCode ?t1 \<noteq> 0" using e by simp
    from saveSprint_error [OF this] show ?thesis
      using False by (simp add: c validateNextDayCell_keeps getCurrentDate_keeps setInterval_keeps)
  qed
  show "currentInterval s' = (if unat (sprintCounter s') mod 4 = 0 then 15 else 5)"
    by (simp add: fin Let_def setInterval_keeps startAnimation_def)
  show "\<exists>ws. writes s' = writes s @ (currentDayOfYear s1, sprintCounter s') # ws"
    if ok: "errorCode s1 = 0"
  proof -
    have ok': "errorCode ?t1 = 0" using e ok by simp
    show ?thesis
      using saveSprint_saved(2,3) [OF ok'] by (simp add: w c d setInterval_keeps)
  qed
  show "eeprom s' (currentDayOfYear s1) =
          (if sprintCounter s' = SPRINTS_END_BYTE
              \<and> 2 \<le> currentDayOfYear s1 \<and> currentDayOfYear s1 \<le> 367
           then EMPTY_VALUE else sprintCounter s')"
    if ok: "errorCode s1 = 0"
  proof -
    have ok': "errorCode ?t1 = 0" using e ok by simp
    show ?thesis
      using saveSprint_saved(1,3) [OF ok'] by (simp add: m c d setInterval_keeps)
  qed
  show "writes s' = writes s \<and> eeprom s' = eeprom s" if bad: "errorCode s1 \<noteq> 0"
  proof -
    have "errorCode ?t1 \<noteq> 0" using e bad by simp
    from saveSprint_error [OF this] show ?thesis
      by (simp add: w m validateNextDayCell_keeps getCurrentDate_keeps setInterval_keeps)
  qed
qed


text \<open>The tick in which a work interval reaches 00:00.\<close>

lemma countingTick_work:
  fixes now s timeIsUp
  defines "s1 \<equiv> validateNextDayCell (getCurrentDate now s)"
  defines "s' \<equiv> countingTick timeIsUp now s"
  assumes "currentInterval s = 25" and "tenths s = 9" and "minutes s = 0" and "seconds s = 1"
  shows "sprintCounter s' =
           (if errorCode s1 = 0 \<and> currentDayOfYear s1 \<noteq> currentDayOfYear s then 1
            else sprintCounter s + 1)"
    and "currentInterval s' = (if unat (sprintCounter s') mod 4 = 0 then 15 else 5)"
    and "errorCode s1 = 0 \<Longrightarrow>
           \<exists>ws. writes s' = writes s @ (currentDayOfYear s1, sprintCounter s') # ws"
    and "errorCode s1 = 0 \<Longrightarrow>
           eeprom s' (currentDayOfYear s1) =
             (if sprintCounter s' = SPRINTS_END_BYTE
                 \<and> 2 \<le> currentDayOfYear s1 \<and> currentDayOfYear s1 \<le> 367
              then EMPTY_VALUE else sprintCounter s')"
    and "errorCode s1 \<noteq> 0 \<Longrightarrow> writes s' = writes s \<and> eeprom s' = eeprom s"
proof -
  let ?s3 = "s\<lparr>tenths := 0, seconds := 0\<rparr>"
  have e: "errorCode (validateNextDayCell (getCurrentDate now ?s3)) = errorCode s1"
    and d: "currentDayOfYear (validateNextDayCell (getCurrentDate now ?s3)) = currentDayOfYear s1"
    unfolding s1_def by (rule refresh_cong; simp)+
  have tick: "s' = sprintFinished now ?s3"
    using assms(3-6) by (simp add: s'_def countingTick_def Let_def)
  note r = sprintFinished_result [of now ?s3, folded tick, unfolded e d]
  show "sprintCounter s' =
          (if errorCode s1 = 0 \<and> currentDayOfYear s1 \<noteq> currentDayOfYear s then 1
           else sprintCounter s + 1)"
    using r(1) by simp
  show "currentInterval s' = (if unat (sprintCounter s') mod 4 = 0 then 15 else 5)"
    by (rule r(2))
  show "\<exists>ws. writes s' = writes s @ (currentDayOfYear s1, sprintCounter s') # ws"
    if "errorCode s1 = 0"
    using r(3) [OF that] by simp
  show "eeprom s' (currentDayOfYear s1) =
          (if sprintCounter s' = SPRINTS_END_BYTE
              \<and> 2 \<le> currentDayOfYear s1 \<and> currentDayOfYear s1 \<le> 367
           then EMPTY_VALUE else sprintCounter s')"
    if "errorCode s1 = 0"
    using r(4) [OF that] by simp
  show "writes s' = writes s \<and> eeprom s' = eeprom s" if "errorCode s1 \<noteq> 0"
    using r(5) [OF that] by simp
qed

text \<open>
  Claim C9, as amended. Take the tick in which the countdown reaches 00:00 (nine tenths
  gone at 00:01). If the work interval (25) is running, the counter is incremented and
  the save is called. With no error from the save, the counter it leaves, which is the
  incremented one on an unchanged day and 1 on a new day, is the first value written, to
  the cell of the current day, and that cell holds it afterwards, with one exception: a
  counter equal to the end byte (237) in a cell 2..367 is erased again by the clearing
  pass of the same save, and the cell is left empty. With an error from the save, nothing
  is written. The next interval is 15 exactly if the counter left by the save is
  divisible by 4, and 5 otherwise. If a break (5 or 15) is running, the interval is set
  back to 25 and nothing is written.
\<close>

theorem countdown_finished:
  fixes now s timeIsUp
  defines "s1 \<equiv> validateNextDayCell (getCurrentDate now s)"
  defines "s' \<equiv> countingTick timeIsUp now s"
  assumes "tenths s = 9" and "minutes s = 0" and "seconds s = 1"
  shows "(currentInterval s = 25 \<longrightarrow>
            sprintCounter s' =
              (if errorCode s1 = 0 \<and> currentDayOfYear s1 \<noteq> currentDayOfYear s then 1
               else sprintCounter s + 1)
          \<and> currentInterval s' = (if unat (sprintCounter s') mod 4 = 0 then 15 else 5)
          \<and> (errorCode s1 = 0 \<longrightarrow>
                (\<exists>ws. writes s' = writes s @ (currentDayOfYear s1, sprintCounter s') # ws)
              \<and> eeprom s' (currentDayOfYear s1) =
                    (if sprintCounter s' = SPRINTS_END_BYTE
                        \<and> 2 \<le> currentDayOfYear s1 \<and> currentDayOfYear s1 \<le> 367
                     then EMPTY_VALUE else sprintCounter s'))
          \<and> (errorCode s1 \<noteq> 0 \<longrightarrow> writes s' = writes s \<and> eeprom s' = eeprom s))
       \<and> ((currentInterval s = 5 \<or> currentInterval s = 15) \<and> showStaticInfo s \<longrightarrow>
            currentInterval s' = 25 \<and> sprintCounter s' = sprintCounter s
          \<and> writes s' = writes s)"
proof (intro conjI impI)
  assume work: "currentInterval s = 25"
  note r = countingTick_work [OF work assms(3-5), where now = now and timeIsUp = timeIsUp,
      folded s1_def s'_def]
  show "sprintCounter s' =
          (if errorCode s1 = 0 \<and> currentDayOfYear s1 \<noteq> currentDayOfYear s then 1
           else sprintCounter s + 1)"
    by (rule r(1))
  show "currentInterval s' = (if unat (sprintCounter s') mod 4 = 0 then 15 else 5)"
    by (rule r(2))
  show "\<exists>ws. writes s' = writes s @ (currentDayOfYear s1, sprintCounter s') # ws"
    if "errorCode s1 = 0"
    by (rule r(3) [OF that])
  show "eeprom s' (currentDayOfYear s1) =
          (if sprintCounter s' = SPRINTS_END_BYTE
              \<and> 2 \<le> currentDayOfYear s1 \<and> currentDayOfYear s1 \<le> 367
           then EMPTY_VALUE else sprintCounter s')"
    if "errorCode s1 = 0"
    by (rule r(4) [OF that])
  show "writes s' = writes s" and "eeprom s' = eeprom s" if "errorCode s1 \<noteq> 0"
    using r(5) [OF that] by simp_all
next
  assume break: "(currentInterval s = 5 \<or> currentInterval s = 15) \<and> showStaticInfo s"
  then have tick: "s' = setInterval 25 (s\<lparr>tenths := 0, seconds := 0\<rparr>)"
    using assms(3-5) by (auto simp: s'_def countingTick_def Let_def)
  show "currentInterval s' = 25" and "sprintCounter s' = sprintCounter s"
    and "writes s' = writes s"
    by (simp_all add: tick setInterval_keeps)
qed

text \<open>
  Claim C9, witness: the fourth sprint of day 100 ends on the same day; the counter is 4,
  it is saved, and the long break follows.
\<close>

theorem countdown_finished_witness:
  "sprintCounter (countingTick False \<lparr>Year = 2026, Month = 4, Day = 10, Hour = 15, Minute = 0, Second = 0, DayOfWeek = 5\<rparr> ((powerOn (\<lambda>_. EMPTY_VALUE) zeroConfig)\<lparr>operatingState := COUNTING, sprintCounter := 3, currentDayOfYear := 100, currentInterval := 25, tenths := 9, seconds := 1, minutes := 0\<rparr>)) = 4
   \<and> currentInterval (countingTick False \<lparr>Year = 2026, Month = 4, Day = 10, Hour = 15, Minute = 0, Second = 0, DayOfWeek = 5\<rparr> ((powerOn (\<lambda>_. EMPTY_VALUE) zeroConfig)\<lparr>operatingState := COUNTING, sprintCounter := 3, currentDayOfYear := 100, currentInterval := 25, tenths := 9, seconds := 1, minutes := 0\<rparr>)) = 15
   \<and> eeprom (countingTick False \<lparr>Year = 2026, Month = 4, Day = 10, Hour = 15, Minute = 0, Second = 0, DayOfWeek = 5\<rparr> ((powerOn (\<lambda>_. EMPTY_VALUE) zeroConfig)\<lparr>operatingState := COUNTING, sprintCounter := 3, currentDayOfYear := 100, currentInterval := 25, tenths := 9, seconds := 1, minutes := 0\<rparr>)) 100 = 4"
proof -
  have h: "tenths ((powerOn (\<lambda>_. EMPTY_VALUE) zeroConfig)\<lparr>operatingState := COUNTING, sprintCounter := 3, currentDayOfYear := 100, currentInterval := 25, tenths := 9, seconds := 1, minutes := 0\<rparr>) = 9" "minutes ((powerOn (\<lambda>_. EMPTY_VALUE) zeroConfig)\<lparr>operatingState := COUNTING, sprintCounter := 3, currentDayOfYear := 100, currentInterval := 25, tenths := 9, seconds := 1, minutes := 0\<rparr>) = 0" "seconds ((powerOn (\<lambda>_. EMPTY_VALUE) zeroConfig)\<lparr>operatingState := COUNTING, sprintCounter := 3, currentDayOfYear := 100, currentInterval := 25, tenths := 9, seconds := 1, minutes := 0\<rparr>) = 1"
    by simp_all
  have sane: "isRtcDateTimeSane \<lparr>Year = 2026, Month = 4, Day = 10, Hour = 15, Minute = 0, Second = 0, DayOfWeek = 5\<rparr>"
    by (simp add: isRtcDateTimeSane_def getDaysInMonth_def dim_def isLeapYear_def)
  have day: "dayOfYearOf 2026 4 10 = 100"
    by (simp add: dayOfYearOf_def dim_def isLeapYear_def upt_rec)
  have ok: "errorCode (validateNextDayCell (getCurrentDate \<lparr>Year = 2026, Month = 4, Day = 10, Hour = 15, Minute = 0, Second = 0, DayOfWeek = 5\<rparr> ((powerOn (\<lambda>_. EMPTY_VALUE) zeroConfig)\<lparr>operatingState := COUNTING, sprintCounter := 3, currentDayOfYear := 100, currentInterval := 25, tenths := 9, seconds := 1, minutes := 0\<rparr>))) = 0"
    and d: "currentDayOfYear (validateNextDayCell (getCurrentDate \<lparr>Year = 2026, Month = 4, Day = 10, Hour = 15, Minute = 0, Second = 0, DayOfWeek = 5\<rparr> ((powerOn (\<lambda>_. EMPTY_VALUE) zeroConfig)\<lparr>operatingState := COUNTING, sprintCounter := 3, currentDayOfYear := 100, currentInterval := 25, tenths := 9, seconds := 1, minutes := 0\<rparr>))) = 100"
    by (simp_all add: validateNextDayCell_def getCurrentDate_def sane day powerOn_fields)
  show ?thesis
    using countdown_finished [OF h, where now = "\<lparr>Year = 2026, Month = 4, Day = 10, Hour = 15, Minute = 0, Second = 0, DayOfWeek = 5\<rparr>"
        and timeIsUp = False]
    by (simp add: ok d SPRINTS_END_BYTE_def)
qed

text \<open>
  Claim C9 as stated fails: the fourth sprint begun on day 100 ends on day 101. The
  incremented counter is 4, but the save resets it to 1, writes 1, and the short break
  follows.
\<close>

theorem midnight_break_counterexample:
  "sprintCounter ((powerOn (\<lambda>_. EMPTY_VALUE) zeroConfig)\<lparr>operatingState := COUNTING, sprintCounter := 3, currentDayOfYear := 100, currentInterval := 25, tenths := 9, seconds := 1, minutes := 0\<rparr>) + 1 = 4
   \<and> currentInterval ((powerOn (\<lambda>_. EMPTY_VALUE) zeroConfig)\<lparr>operatingState := COUNTING, sprintCounter := 3, currentDayOfYear := 100, currentInterval := 25, tenths := 9, seconds := 1, minutes := 0\<rparr>) = 25 \<and> tenths ((powerOn (\<lambda>_. EMPTY_VALUE) zeroConfig)\<lparr>operatingState := COUNTING, sprintCounter := 3, currentDayOfYear := 100, currentInterval := 25, tenths := 9, seconds := 1, minutes := 0\<rparr>) = 9 \<and> minutes ((powerOn (\<lambda>_. EMPTY_VALUE) zeroConfig)\<lparr>operatingState := COUNTING, sprintCounter := 3, currentDayOfYear := 100, currentInterval := 25, tenths := 9, seconds := 1, minutes := 0\<rparr>) = 0 \<and> seconds ((powerOn (\<lambda>_. EMPTY_VALUE) zeroConfig)\<lparr>operatingState := COUNTING, sprintCounter := 3, currentDayOfYear := 100, currentInterval := 25, tenths := 9, seconds := 1, minutes := 0\<rparr>) = 1
   \<and> currentInterval (countingTick False \<lparr>Year = 2026, Month = 4, Day = 11, Hour = 0, Minute = 2, Second = 0, DayOfWeek = 6\<rparr> ((powerOn (\<lambda>_. EMPTY_VALUE) zeroConfig)\<lparr>operatingState := COUNTING, sprintCounter := 3, currentDayOfYear := 100, currentInterval := 25, tenths := 9, seconds := 1, minutes := 0\<rparr>)) = 5
   \<and> sprintCounter (countingTick False \<lparr>Year = 2026, Month = 4, Day = 11, Hour = 0, Minute = 2, Second = 0, DayOfWeek = 6\<rparr> ((powerOn (\<lambda>_. EMPTY_VALUE) zeroConfig)\<lparr>operatingState := COUNTING, sprintCounter := 3, currentDayOfYear := 100, currentInterval := 25, tenths := 9, seconds := 1, minutes := 0\<rparr>)) = 1
   \<and> eeprom (countingTick False \<lparr>Year = 2026, Month = 4, Day = 11, Hour = 0, Minute = 2, Second = 0, DayOfWeek = 6\<rparr> ((powerOn (\<lambda>_. EMPTY_VALUE) zeroConfig)\<lparr>operatingState := COUNTING, sprintCounter := 3, currentDayOfYear := 100, currentInterval := 25, tenths := 9, seconds := 1, minutes := 0\<rparr>)) 101 = 1"
proof -
  have h: "currentInterval ((powerOn (\<lambda>_. EMPTY_VALUE) zeroConfig)\<lparr>operatingState := COUNTING, sprintCounter := 3, currentDayOfYear := 100, currentInterval := 25, tenths := 9, seconds := 1, minutes := 0\<rparr>) = 25" "tenths ((powerOn (\<lambda>_. EMPTY_VALUE) zeroConfig)\<lparr>operatingState := COUNTING, sprintCounter := 3, currentDayOfYear := 100, currentInterval := 25, tenths := 9, seconds := 1, minutes := 0\<rparr>) = 9" "minutes ((powerOn (\<lambda>_. EMPTY_VALUE) zeroConfig)\<lparr>operatingState := COUNTING, sprintCounter := 3, currentDayOfYear := 100, currentInterval := 25, tenths := 9, seconds := 1, minutes := 0\<rparr>) = 0" "seconds ((powerOn (\<lambda>_. EMPTY_VALUE) zeroConfig)\<lparr>operatingState := COUNTING, sprintCounter := 3, currentDayOfYear := 100, currentInterval := 25, tenths := 9, seconds := 1, minutes := 0\<rparr>) = 1"
    by simp_all
  have ok: "errorCode (validateNextDayCell (getCurrentDate \<lparr>Year = 2026, Month = 4, Day = 11, Hour = 0, Minute = 2, Second = 0, DayOfWeek = 6\<rparr> ((powerOn (\<lambda>_. EMPTY_VALUE) zeroConfig)\<lparr>operatingState := COUNTING, sprintCounter := 3, currentDayOfYear := 100, currentInterval := 25, tenths := 9, seconds := 1, minutes := 0\<rparr>))) = 0"
    and d: "currentDayOfYear (validateNextDayCell (getCurrentDate \<lparr>Year = 2026, Month = 4, Day = 11, Hour = 0, Minute = 2, Second = 0, DayOfWeek = 6\<rparr> ((powerOn (\<lambda>_. EMPTY_VALUE) zeroConfig)\<lparr>operatingState := COUNTING, sprintCounter := 3, currentDayOfYear := 100, currentInterval := 25, tenths := 9, seconds := 1, minutes := 0\<rparr>))) = 101"
    by (simp_all add: validateNextDayCell_def getCurrentDate_def sane_examples
          dayOfYearOf_examples powerOn_fields)
  note r = countingTick_work [OF h, where now = "\<lparr>Year = 2026, Month = 4, Day = 11, Hour = 0, Minute = 2, Second = 0, DayOfWeek = 6\<rparr>"
      and timeIsUp = False]
  have c: "sprintCounter (countingTick False \<lparr>Year = 2026, Month = 4, Day = 11, Hour = 0, Minute = 2, Second = 0, DayOfWeek = 6\<rparr> ((powerOn (\<lambda>_. EMPTY_VALUE) zeroConfig)\<lparr>operatingState := COUNTING, sprintCounter := 3, currentDayOfYear := 100, currentInterval := 25, tenths := 9, seconds := 1, minutes := 0\<rparr>)) = 1"
    using r(1) by (simp add: ok d)
  have i: "currentInterval (countingTick False \<lparr>Year = 2026, Month = 4, Day = 11, Hour = 0, Minute = 2, Second = 0, DayOfWeek = 6\<rparr> ((powerOn (\<lambda>_. EMPTY_VALUE) zeroConfig)\<lparr>operatingState := COUNTING, sprintCounter := 3, currentDayOfYear := 100, currentInterval := 25, tenths := 9, seconds := 1, minutes := 0\<rparr>)) = 5"
    using r(2) by (simp add: c)
  have m: "eeprom (countingTick False \<lparr>Year = 2026, Month = 4, Day = 11, Hour = 0, Minute = 2, Second = 0, DayOfWeek = 6\<rparr> ((powerOn (\<lambda>_. EMPTY_VALUE) zeroConfig)\<lparr>operatingState := COUNTING, sprintCounter := 3, currentDayOfYear := 100, currentInterval := 25, tenths := 9, seconds := 1, minutes := 0\<rparr>)) 101 = 1"
    using r(4) by (simp add: ok d c SPRINTS_END_BYTE_def)
  show ?thesis
    using c i m by simp
qed

end
